theory Spec2Isabelle
  imports Main "HOL-Library.Sublist"
begin

section \<open>Python values and exceptions\<close>

text \<open>
  \<^verbatim>\<open>run_codenarc.py\<close> walks the structure that \<^verbatim>\<open>xmltodict.parse\<close> builds from the
  CodeNarc report: nested dictionaries with string keys (attributes under \<^verbatim>\<open>@name\<close>, child
  elements under their tag), strings, \<^verbatim>\<open>None\<close> for an empty element, and a list where a tag
  occurs more than once. Strings are byte strings (\<^typ>\<open>string\<close>); the script only
  concatenates them and tests them for emptiness and for a substring.
\<close>

datatype pyval =
    Str string
  | NoneV
  | Dict "(string \<times> pyval) list"
  | Lst "pyval list"

datatype error =
    KeyError string
  | TypeError
  | ValueError string
  | ExpatError
  | OSError
  | UnicodeDecodeError

text \<open>\<^verbatim>\<open>v[k]\<close> for a string key: only a dictionary can be subscripted by a string.\<close>

fun subscript :: "pyval \<Rightarrow> string \<Rightarrow> error + pyval" where
  "subscript (Dict d) k = (case map_of d k of None \<Rightarrow> Inl (KeyError k) | Some v \<Rightarrow> Inr v)"
| "subscript (Str s) k = Inl TypeError"
| "subscript NoneV k = Inl TypeError"
| "subscript (Lst xs) k = Inl TypeError"

text \<open>
  \<^verbatim>\<open>k in v\<close> for a string \<open>k\<close>: key membership in a dictionary, substring test in a
  string, element membership in a list, and a \<^verbatim>\<open>TypeError\<close> on \<^verbatim>\<open>None\<close>.
\<close>

fun py_in :: "string \<Rightarrow> pyval \<Rightarrow> error + bool" where
  "py_in k (Dict d) = Inr (map_of d k \<noteq> None)"
| "py_in k (Str s) = Inr (sublist k s)"
| "py_in k NoneV = Inl TypeError"
| "py_in k (Lst xs) = Inr (Str k \<in> set xs)"

text \<open>Truth value of a value, as \<^verbatim>\<open>not v\<close> tests it.\<close>

fun truthy :: "pyval \<Rightarrow> bool" where
  "truthy (Str s) = (s \<noteq> [])"
| "truthy NoneV = False"
| "truthy (Dict d) = (d \<noteq> [])"
| "truthy (Lst xs) = (xs \<noteq> [])"

text \<open>
  What an f-string puts in place of \<^verbatim>\<open>{v}\<close>: a string stands for itself and \<^verbatim>\<open>None\<close>
  is written \<^verbatim>\<open>None\<close>. The text of a dictionary or of a list depends on the mapping type
  of the installed xmltodict, so it is the parameter \<open>repr\<close>.
\<close>

fun format :: "(pyval \<Rightarrow> string) \<Rightarrow> pyval \<Rightarrow> string" where
  "format repr (Str s) = s"
| "format repr NoneV = ''None''"
| "format repr v = repr v"

text \<open>Decimal text of a Python integer, as \<^verbatim>\<open>{n}\<close> in an f-string writes it.\<close>

definition digit :: "nat \<Rightarrow> char" where
  "digit n = ''0123456789'' ! (n mod 10)"

fun str_nat :: "nat \<Rightarrow> string" where
  "str_nat n = (if n < 10 then [digit n] else str_nat (n div 10) @ [digit n])"

declare str_nat.simps [simp del]

definition str_int :: "int \<Rightarrow> string" where
  "str_int i = (if i < 0 then CHR ''-'' # str_nat (nat (- i)) else str_nat (nat i))"

section \<open>The report printer\<close>

text \<open>
  \<^verbatim>\<open>print\<close> appends one entry to the list of printed lines, which every function
  below takes and returns. A function that raises returns the lines printed before the
  exception together with \<open>Inl\<close> of the exception.
\<close>

text \<open>\<^verbatim>\<open>_safe_list_wrapper\<close>: \<^verbatim>\<open>element if isinstance(element, list) else [element]\<close>.\<close>

fun safe_list_wrapper :: "pyval \<Rightarrow> pyval list" where
  "safe_list_wrapper (Lst xs) = xs"
| "safe_list_wrapper v = [v]"

text \<open>The \<^verbatim>\<open>for\<close> loop of \<^verbatim>\<open>_print_violations\<close>.\<close>

fun print_violations_loop ::
  "(pyval \<Rightarrow> string) \<Rightarrow> string \<Rightarrow> pyval list \<Rightarrow> string list \<Rightarrow> string list \<times> error option" where
  "print_violations_loop repr package_file_path [] out = (out, None)"
| "print_violations_loop repr package_file_path (violation # rest) out =
     (case subscript violation ''@ruleName'' of
        Inl e \<Rightarrow> (out, Some e)
      | Inr rule_name \<Rightarrow>
     (case subscript violation ''Message'' of
        Inl e \<Rightarrow> (out, Some e)
      | Inr message \<Rightarrow>
     (case subscript violation ''@lineNumber'' of
        Inl e \<Rightarrow> (out, Some e)
      | Inr line_number \<Rightarrow>
          print_violations_loop repr package_file_path rest
            (out @ [package_file_path @ '':'' @ format repr line_number @ '': '' @
                    (format repr rule_name @ '': '' @ format repr message)]))))"

text \<open>\<^verbatim>\<open>_print_violations\<close>: print every violation, return \<^verbatim>\<open>len(violations)\<close>.\<close>

definition print_violations ::
  "(pyval \<Rightarrow> string) \<Rightarrow> string \<Rightarrow> pyval list \<Rightarrow> string list \<Rightarrow> string list \<times> (error + int)" where
  "print_violations repr package_file_path violations out =
     (case print_violations_loop repr package_file_path violations out of
        (out', Some e) \<Rightarrow> (out', Inl e)
      | (out', None) \<Rightarrow> (out', Inr (int (length violations))))"

text \<open>
  \<^verbatim>\<open>_print_violations_in_files\<close>; the accumulator is \<^verbatim>\<open>num_violations\<close>. The first
  argument of the call, the f-string with \<^verbatim>\<open>package_file["@name"]\<close>, is evaluated before
  \<^verbatim>\<open>package_file["Violation"]\<close>.
\<close>

fun print_violations_in_files_loop ::
  "(pyval \<Rightarrow> string) \<Rightarrow> pyval \<Rightarrow> pyval list \<Rightarrow> int \<Rightarrow> string list \<Rightarrow> string list \<times> (error + int)" where
  "print_violations_in_files_loop repr package_path [] num_violations out = (out, Inr num_violations)"
| "print_violations_in_files_loop repr package_path (package_file # rest) num_violations out =
     (case subscript package_file ''@name'' of
        Inl e \<Rightarrow> (out, Inl e)
      | Inr name \<Rightarrow>
     (case subscript package_file ''Violation'' of
        Inl e \<Rightarrow> (out, Inl e)
      | Inr violation \<Rightarrow>
     (case print_violations repr (format repr package_path @ ''/'' @ format repr name)
             (safe_list_wrapper violation) out of
        (out', Inl e) \<Rightarrow> (out', Inl e)
      | (out', Inr n) \<Rightarrow>
          print_violations_in_files_loop repr package_path rest (num_violations + n) out')))"

definition print_violations_in_files ::
  "(pyval \<Rightarrow> string) \<Rightarrow> pyval \<Rightarrow> pyval list \<Rightarrow> string list \<Rightarrow> string list \<times> (error + int)" where
  "print_violations_in_files repr package_path files out =
     print_violations_in_files_loop repr package_path files 0 out"

text \<open>
  The comprehension \<^verbatim>\<open>[p for p in packages if 'File' in p]\<close> of
  \<^verbatim>\<open>_print_violations_in_packages\<close>. It is built in full before the loop starts, so a
  \<^verbatim>\<open>TypeError\<close> of the membership test is raised before anything is printed.
\<close>

fun packages_with_file :: "pyval list \<Rightarrow> error + pyval list" where
  "packages_with_file [] = Inr []"
| "packages_with_file (p # ps) =
     (case py_in ''File'' p of
        Inl e \<Rightarrow> Inl e
      | Inr b \<Rightarrow>
     (case packages_with_file ps of
        Inl e \<Rightarrow> Inl e
      | Inr qs \<Rightarrow> Inr (if b then p # qs else qs)))"

fun print_violations_in_packages_loop ::
  "(pyval \<Rightarrow> string) \<Rightarrow> pyval list \<Rightarrow> int \<Rightarrow> string list \<Rightarrow> string list \<times> (error + int)" where
  "print_violations_in_packages_loop repr [] num_violations out = (out, Inr num_violations)"
| "print_violations_in_packages_loop repr (package # rest) num_violations out =
     (case subscript package ''@path'' of
        Inl e \<Rightarrow> (out, Inl e)
      | Inr path0 \<Rightarrow>
     (let package_path = (if \<not> truthy path0 then Str ''.'' else path0) in
     (case subscript package ''File'' of
        Inl e \<Rightarrow> (out, Inl e)
      | Inr file \<Rightarrow>
     (case print_violations_in_files repr package_path (safe_list_wrapper file) out of
        (out', Inl e) \<Rightarrow> (out', Inl e)
      | (out', Inr n) \<Rightarrow>
          print_violations_in_packages_loop repr rest (num_violations + n) out'))))"

definition print_violations_in_packages ::
  "(pyval \<Rightarrow> string) \<Rightarrow> pyval list \<Rightarrow> string list \<Rightarrow> string list \<times> (error + int)" where
  "print_violations_in_packages repr packages out =
     (case packages_with_file packages of
        Inl e \<Rightarrow> (out, Inl e)
      | Inr with_file \<Rightarrow> print_violations_in_packages_loop repr with_file 0 out)"

text \<open>
  \<^verbatim>\<open>parse_xml_report\<close>. \<^verbatim>\<open>xmltodict.parse\<close> is a library function, taken as the
  parameter \<open>xmltodict_parse\<close>. The expression \<^verbatim>\<open>xml_doc['CodeNarc']['Package']\<close> is
  evaluated once for each of the two calls of \<^verbatim>\<open>_print_violations_in_packages\<close>.
\<close>

definition codenarc_package :: "pyval \<Rightarrow> error + pyval" where
  "codenarc_package xml_doc =
     (case subscript xml_doc ''CodeNarc'' of
        Inl e \<Rightarrow> Inl e
      | Inr codenarc \<Rightarrow> subscript codenarc ''Package'')"

definition parse_xml_report ::
  "(string \<Rightarrow> error + pyval) \<Rightarrow> (pyval \<Rightarrow> string) \<Rightarrow> string \<Rightarrow> string list \<Rightarrow>
     string list \<times> (error + int)" where
  "parse_xml_report xmltodict_parse repr xml_text out =
     (case xmltodict_parse xml_text of
        Inl e \<Rightarrow> (out, Inl e)
      | Inr xml_doc \<Rightarrow>
     (case subscript xml_doc ''CodeNarc'' of
        Inl e \<Rightarrow> (out, Inl e)
      | Inr codenarc \<Rightarrow>
     (case subscript codenarc ''PackageSummary'' of
        Inl e \<Rightarrow> (out, Inl e)
      | Inr package_summary \<Rightarrow>
     (case subscript package_summary ''@totalFiles'' of
        Inl e \<Rightarrow> (out, Inl e)
      | Inr total_files_scanned \<Rightarrow>
     (case codenarc_package xml_doc of
        Inl e \<Rightarrow> (out, Inl e)
      | Inr package \<Rightarrow>
     (case print_violations_in_packages repr (safe_list_wrapper package) out of
        (out1, Inl e) \<Rightarrow> (out1, Inl e)
      | (out1, Inr total_violations) \<Rightarrow>
     (let out2 = out1 @ [''Scanned '' @ format repr total_files_scanned @ '' files''] in
      if total_violations = 0 then (out2 @ [''No violations found''], Inr 0)
      else
     (let out3 = out2 @ [''Found '' @ str_int total_violations @ '' violation(s):''] in
     (case codenarc_package xml_doc of
        Inl e \<Rightarrow> (out3, Inl e)
      | Inr package' \<Rightarrow>
     (case print_violations_in_packages repr (safe_list_wrapper package') out3 of
        (out4, Inl e) \<Rightarrow> (out4, Inl e)
      | (out4, Inr n) \<Rightarrow> (out4, Inr total_violations)))))))))))"

section \<open>The invoker\<close>

text \<open>The parsed command line, as \<^verbatim>\<open>parse_args\<close> returns it. \<^verbatim>\<open>groovy_home\<close> is
  \<^verbatim>\<open>None\<close> when no Groovy installation was found.\<close>

record args =
  home :: string
  groovy_home :: "string option"
  codenarc_version :: string
  gmetrics_version :: string
  slf4j_version :: string
  codenarc_options :: "string list"

text \<open>What \<^verbatim>\<open>subprocess.run\<close> returns: the captured output (standard error is
  redirected into it) and the exit code.\<close>

record completed_process =
  stdout :: string
  returncode :: int

text \<open>The state the invoker works on: the regular files on disk, by path, each with its
  bytes, and the bytes written to the standard output of the script. A path is on disk
  when it has a file, and removing a file that is on disk succeeds.\<close>

record world =
  files :: "string \<rightharpoonup> string"
  console :: string

definition DEFAULT_REPORT_FILE :: string where
  "DEFAULT_REPORT_FILE = ''codenarc-report.xml''"

text \<open>\<^verbatim>\<open>{groovy_home}\<close> in an f-string.\<close>

fun format_opt :: "string option \<Rightarrow> string" where
  "format_opt None = ''None''"
| "format_opt (Some s) = s"

text \<open>\<^verbatim>\<open>sep.join(xs)\<close>.\<close>

fun join :: "string \<Rightarrow> string list \<Rightarrow> string" where
  "join sep [] = []"
| "join sep [x] = x"
| "join sep (x # y # ys) = x @ sep @ join sep (y # ys)"

definition classpath :: "args \<Rightarrow> string list" where
  "classpath a =
     [ home a,
       format_opt (groovy_home a) @ ''/lib/*'',
       home a @ ''/CodeNarc-'' @ codenarc_version a @ ''.jar'',
       home a @ ''/GMetrics-'' @ gmetrics_version a @ ''.jar'',
       home a @ ''/slf4j-'' @ slf4j_version a @ ''/slf4j-api-'' @ slf4j_version a @ ''.jar'',
       home a @ ''/slf4j-'' @ slf4j_version a @ ''/slf4j-simple-'' @ slf4j_version a @ ''.jar'' ]"

definition codenarc_call :: "args \<Rightarrow> string \<Rightarrow> string list" where
  "codenarc_call a report_file =
     [ ''java'',
       ''-classpath'',
       join '':'' (classpath a),
       ''org.codenarc.CodeNarc'',
       ''-rulesetfiles=ruleset.groovy'',
       ''-report=xml:'' @ report_file ] @ codenarc_options a"

text \<open>
  \<^verbatim>\<open>str(output.stdout)\<close>: the captured output is a \<^verbatim>\<open>bytes\<close> object, and \<^verbatim>\<open>str\<close> of
  it is its literal, \<^verbatim>\<open>b'...'\<close>: double quotes are used when the bytes hold a single
  quote and no double quote; the quote and the backslash are escaped, tab, newline and
  carriage return are written \<^verbatim>\<open>\t\<close>, \<^verbatim>\<open>\n\<close>, \<^verbatim>\<open>\r\<close>, every other byte below 0x20 or
  from 0x7f on is written \<^verbatim>\<open>\xhh\<close> with lower-case digits.
\<close>

definition hexdigit :: "nat \<Rightarrow> char" where
  "hexdigit n = ''0123456789abcdef'' ! (n mod 16)"

definition bytes_quote :: "string \<Rightarrow> char" where
  "bytes_quote bs = (if CHR 0x27 \<in> set bs \<and> CHR 0x22 \<notin> set bs then CHR 0x22 else CHR 0x27)"

definition bytes_escape :: "char \<Rightarrow> char \<Rightarrow> string" where
  "bytes_escape quote c =
     (if c = quote \<or> c = CHR 0x5C then [CHR 0x5C, c]
      else if c = CHR 0x09 then [CHR 0x5C, CHR ''t'']
      else if c = CHR 0x0A then [CHR 0x5C, CHR ''n'']
      else if c = CHR 0x0D then [CHR 0x5C, CHR ''r'']
      else if (of_char c :: nat) < 0x20 \<or> (of_char c :: nat) \<ge> 0x7F
        then [CHR 0x5C, CHR ''x'', hexdigit (of_char c div 16), hexdigit (of_char c mod 16)]
      else [c])"

definition bytes_str :: "string \<Rightarrow> string" where
  "bytes_str bs =
     (let quote = bytes_quote bs
      in CHR ''b'' # quote # concat (map (bytes_escape quote) bs) @ [quote])"

text \<open>\<^verbatim>\<open>_remove_report_file\<close>.\<close>

definition remove_report_file :: "string \<Rightarrow> world \<Rightarrow> world" where
  "remove_report_file report_file w =
     (if files w report_file \<noteq> None then w\<lparr>files := (files w)(report_file := None)\<rparr> else w)"

text \<open>
  \<^verbatim>\<open>run_codenarc\<close>. The external process is the parameter \<open>subprocess_run\<close>: from the
  argument list and the state it gives the state after the process and either the
  completed process or the exception of a process that could not be started. Reading
  the report, \<^verbatim>\<open>open(report_file)\<close> and \<^verbatim>\<open>xml_file.read()\<close>, is the parameter
  \<open>read_text\<close>: from the path and the bytes of the file it gives the text, decoded in
  the encoding of the locale, or the exception that opening or decoding raises. That
  exception leaves \<^verbatim>\<open>run_codenarc\<close> before \<^verbatim>\<open>_remove_report_file\<close> is reached.
\<close>

definition run_codenarc ::
  "(string list \<Rightarrow> world \<Rightarrow> world \<times> (error + completed_process)) \<Rightarrow>
   (string \<Rightarrow> string \<Rightarrow> error + string) \<Rightarrow> args \<Rightarrow> string \<Rightarrow> world \<Rightarrow>
     world \<times> (error + string)" where
  "run_codenarc subprocess_run read_text a report_file w =
     (case subprocess_run (codenarc_call a report_file) w of
        (w1, Inl e) \<Rightarrow> (w1, Inl e)
      | (w1, Inr output) \<Rightarrow>
     (let w2 = w1\<lparr>console := console w1 @ stdout output\<rparr> in
      if sublist ''Compilation failed'' (bytes_str (stdout output)) then
        (remove_report_file report_file w2, Inl (ValueError ''Error when compiling files!''))
      else if returncode output \<noteq> 0 then
        (remove_report_file report_file w2,
         Inl (ValueError (''CodeNarc failed with return code '' @ str_int (returncode output))))
      else if files w2 report_file = None then
        (remove_report_file report_file w2,
         Inl (ValueError (report_file @ '' was not generated, aborting!'')))
      else
     (case files w2 report_file of
        None \<Rightarrow> (w2, Inl OSError)
      | Some content \<Rightarrow>
     (case read_text report_file content of
        Inl e \<Rightarrow> (w2, Inl e)
      | Inr xml_text \<Rightarrow> (remove_report_file report_file w2, Inr xml_text)))))"

section \<open>The report as a data model\<close>

text \<open>
  The report of the specification: packages in document order, each with its files, each
  file with its violations. The attribute values are the strings of the XML document.
\<close>

record violation =
  rule_name :: string
  line_number :: string
  message :: string

record source_file =
  file_name :: string
  violations :: "violation list"

record package =
  path :: string
  source_files :: "source_file list"

record report =
  total_files :: string
  packages :: "package list"

text \<open>
  How xmltodict renders such a report. An element is a dictionary; \<open>attribute x k s\<close>
  says that \<open>x[k]\<close> is the string \<open>s\<close>. The children with tag \<open>k\<close> of an element are
  no entry at all when there is none, the child itself when there is one, and a list
  when there are several; a list of one child is accepted as well. The dictionary may
  hold any other entries.
\<close>

definition attribute :: "pyval \<Rightarrow> string \<Rightarrow> string \<Rightarrow> bool" where
  "attribute x k s \<longleftrightarrow> subscript x k = Inr (Str s)"

definition children :: "(pyval \<Rightarrow> 'a \<Rightarrow> bool) \<Rightarrow> pyval \<Rightarrow> string \<Rightarrow> 'a list \<Rightarrow> bool" where
  "children R x k ys =
     (case subscript x k of
        Inl e \<Rightarrow> e = KeyError k \<and> ys = []
      | Inr (Lst xs) \<Rightarrow> xs \<noteq> [] \<and> list_all2 R xs ys
      | Inr v \<Rightarrow> list_all2 R [v] ys)"

definition is_violation :: "pyval \<Rightarrow> violation \<Rightarrow> bool" where
  "is_violation x v \<longleftrightarrow>
     attribute x ''@ruleName'' (rule_name v) \<and>
     attribute x ''@lineNumber'' (line_number v) \<and>
     attribute x ''Message'' (message v)"

definition is_file :: "pyval \<Rightarrow> source_file \<Rightarrow> bool" where
  "is_file x f \<longleftrightarrow>
     attribute x ''@name'' (file_name f) \<and> children is_violation x ''Violation'' (violations f)"

definition is_package :: "pyval \<Rightarrow> package \<Rightarrow> bool" where
  "is_package x p \<longleftrightarrow>
     attribute x ''@path'' (path p) \<and> children is_file x ''File'' (source_files p)"

definition is_report :: "pyval \<Rightarrow> report \<Rightarrow> bool" where
  "is_report xml_doc r =
     (case subscript xml_doc ''CodeNarc'' of
        Inl e \<Rightarrow> False
      | Inr codenarc \<Rightarrow>
          (case subscript codenarc ''PackageSummary'' of
             Inl e \<Rightarrow> False
           | Inr package_summary \<Rightarrow> attribute package_summary ''@totalFiles'' (total_files r))
          \<and> children is_package codenarc ''Package'' (packages r))"

text \<open>
  A report as CodeNarc writes it has the top-level package at least, and a File element
  only for a file with violations.
\<close>

definition listed_with_violations :: "report \<Rightarrow> bool" where
  "listed_with_violations r \<longleftrightarrow>
     packages r \<noteq> [] \<and>
     (\<forall>p \<in> set (packages r). \<forall>f \<in> set (source_files p). violations f \<noteq> [])"

text \<open>The violation lines of a report, in document order, and their number.\<close>

definition violation_line :: "string \<Rightarrow> string \<Rightarrow> violation \<Rightarrow> string" where
  "violation_line package_name file v =
     package_name @ ''/'' @ file @ '':'' @ line_number v @ '': '' @ rule_name v @ '': '' @ message v"

definition shown_path :: "package \<Rightarrow> string" where
  "shown_path p = (if path p = [] then ''.'' else path p)"

definition file_lines :: "string \<Rightarrow> source_file \<Rightarrow> string list" where
  "file_lines package_name f = map (violation_line package_name (file_name f)) (violations f)"

definition package_lines :: "package \<Rightarrow> string list" where
  "package_lines p = concat (map (file_lines (shown_path p)) (source_files p))"

definition report_lines :: "report \<Rightarrow> string list" where
  "report_lines r = concat (map package_lines (packages r))"

definition count_in_files :: "source_file list \<Rightarrow> nat" where
  "count_in_files fs = sum_list (map (\<lambda>f. length (violations f)) fs)"

definition count_violations :: "report \<Rightarrow> nat" where
  "count_violations r = sum_list (map (\<lambda>p. count_in_files (source_files p)) (packages r))"

section \<open>Bare children and lists of one child\<close>

text \<open>
  The same document with one-element lists in place of bare children: \<open>listed\<close> puts a
  value that is not a list into a list, \<open>update_entry k g\<close> applies \<open>g\<close> to the entry
  \<open>k\<close> of a dictionary, \<open>each_child g\<close> applies \<open>g\<close> to the child or to every child of
  the list. The three switches choose the levels: packages, files, violations.
\<close>

fun listed :: "pyval \<Rightarrow> pyval" where
  "listed (Lst xs) = Lst xs"
| "listed v = Lst [v]"

fun each_child :: "(pyval \<Rightarrow> pyval) \<Rightarrow> pyval \<Rightarrow> pyval" where
  "each_child g (Lst xs) = Lst (map g xs)"
| "each_child g v = g v"

fun update_entry :: "string \<Rightarrow> (pyval \<Rightarrow> pyval) \<Rightarrow> pyval \<Rightarrow> pyval" where
  "update_entry k g (Dict d) = Dict (map (\<lambda>(k', v). (k', if k' = k then g v else v)) d)"
| "update_entry k g v = v"

definition listed_if :: "bool \<Rightarrow> pyval \<Rightarrow> pyval" where
  "listed_if b v = (if b then listed v else v)"

definition list_violations :: "bool \<Rightarrow> pyval \<Rightarrow> pyval" where
  "list_violations lv = update_entry ''Violation'' (listed_if lv)"

definition list_files :: "bool \<Rightarrow> bool \<Rightarrow> pyval \<Rightarrow> pyval" where
  "list_files lf lv =
     update_entry ''File'' (\<lambda>v. listed_if lf (each_child (list_violations lv) v))"

definition list_packages :: "bool \<Rightarrow> bool \<Rightarrow> bool \<Rightarrow> pyval \<Rightarrow> pyval" where
  "list_packages lp lf lv =
     update_entry ''CodeNarc''
       (update_entry ''Package'' (\<lambda>v. listed_if lp (each_child (list_files lf lv) v)))"

fun after_parse :: "(pyval \<Rightarrow> pyval) \<Rightarrow> error + pyval \<Rightarrow> error + pyval" where
  "after_parse g (Inl e) = Inl e"
| "after_parse g (Inr xml_doc) = Inr (g xml_doc)"

section \<open>Example inputs\<close>

definition example_args :: args where
  "example_args =
     \<lparr> home = ''/opt/groovylint'',
       groovy_home = Some ''/opt/groovy'',
       codenarc_version = ''1.5'',
       gmetrics_version = ''1.0'',
       slf4j_version = ''1.7.29'',
       codenarc_options = [''-includes=**/*.groovy''] \<rparr>"

definition empty_world :: world where
  "empty_world = \<lparr> files = Map.empty, console = [] \<rparr>"

text \<open>A run that fails to compile a source file, writes a report all the same and exits
  with code 1.\<close>

definition run_compile_failure ::
  "string list \<Rightarrow> world \<Rightarrow> world \<times> (error + completed_process)" where
  "run_compile_failure call w =
     (w\<lparr>files := (files w)(''codenarc-report.xml'' \<mapsto> ''<CodeNarc/>'')\<rparr>,
      Inr \<lparr> stdout = ''Compilation failed for [Broken.groovy]'', returncode = 1 \<rparr>)"

text \<open>A run killed by signal 9 after it has written a partial report.\<close>

definition run_killed ::
  "string list \<Rightarrow> world \<Rightarrow> world \<times> (error + completed_process)" where
  "run_killed call w =
     (w\<lparr>files := (files w)(''codenarc-report.xml'' \<mapsto> ''<CodeNarc>'')\<rparr>,
      Inr \<lparr> stdout = ''Killed'', returncode = - 9 \<rparr>)"

text \<open>A run that exits with code 0 and writes nothing.\<close>

definition run_silent ::
  "string list \<Rightarrow> world \<Rightarrow> world \<times> (error + completed_process)" where
  "run_silent call w = (w, Inr \<lparr> stdout = [], returncode = 0 \<rparr>)"

text \<open>A run that writes its report.\<close>

definition run_ok ::
  "string list \<Rightarrow> world \<Rightarrow> world \<times> (error + completed_process)" where
  "run_ok call w =
     (w\<lparr>files := (files w)(''codenarc-report.xml'' \<mapsto> ''<CodeNarc></CodeNarc>'')\<rparr>,
      Inr \<lparr> stdout = ''CodeNarc completed'', returncode = 0 \<rparr>)"

text \<open>A run that exits with code 0 and writes a report with a byte that is not ASCII.\<close>

definition run_badly_encoded ::
  "string list \<Rightarrow> world \<Rightarrow> world \<times> (error + completed_process)" where
  "run_badly_encoded call w =
     (w\<lparr>files := (files w)(''codenarc-report.xml'' \<mapsto> [CHR ''<'', CHR 0xE9, CHR ''>''])\<rparr>,
      Inr \<lparr> stdout = ''CodeNarc completed'', returncode = 0 \<rparr>)"

text \<open>Reading a file in the ASCII encoding: a byte from 0x80 on cannot be decoded.\<close>

definition read_ascii :: "string \<Rightarrow> string \<Rightarrow> error + string" where
  "read_ascii file_path content =
     (if list_all (\<lambda>c. (of_char c :: nat) < 0x80) content then Inr content
      else Inl UnicodeDecodeError)"

text \<open>
  A report with three packages: the top-level one with one file and one violation (both
  bare), \<^verbatim>\<open>src\<close> with one file and two violations, and \<^verbatim>\<open>test\<close> with no file.
\<close>

definition flagged_file_xml :: pyval where
  "flagged_file_xml =
     Dict [ (''@name'', Str ''A.groovy''),
            (''Violation'', Lst
              [ Dict [ (''@ruleName'', Str ''EmptyIf''),
                       (''@lineNumber'', Str ''7''),
                       (''Message'', Str ''empty'') ],
                Dict [ (''@ruleName'', Str ''EmptyElse''),
                       (''@lineNumber'', Str ''9''),
                       (''Message'', Str ''empty'') ] ]) ]"

definition flagged_file :: source_file where
  "flagged_file =
     \<lparr> file_name = ''A.groovy'',
       violations =
         [ \<lparr> rule_name = ''EmptyIf'', line_number = ''7'', message = ''empty'' \<rparr>,
           \<lparr> rule_name = ''EmptyElse'', line_number = ''9'', message = ''empty'' \<rparr> ] \<rparr>"

definition top_package_xml :: pyval where
  "top_package_xml =
     Dict [ (''@path'', Str []),
            (''File'', Dict
              [ (''@name'', Str ''build.groovy''),
                (''Violation'', Dict
                  [ (''@ruleName'', Str ''UnusedImport''),
                    (''@priority'', Str ''3''),
                    (''@lineNumber'', Str ''3''),
                    (''Message'', Str ''unused'') ]) ]) ]"

definition top_package :: package where
  "top_package =
     \<lparr> path = [],
       source_files =
         [ \<lparr> file_name = ''build.groovy'',
             violations =
               [ \<lparr> rule_name = ''UnusedImport'', line_number = ''3'', message = ''unused'' \<rparr> ] \<rparr> ] \<rparr>"

definition src_package_xml :: pyval where
  "src_package_xml = Dict [ (''@path'', Str ''src''), (''File'', flagged_file_xml) ]"

definition src_package :: package where
  "src_package = \<lparr> path = ''src'', source_files = [flagged_file] \<rparr>"

definition test_package_xml :: pyval where
  "test_package_xml = Dict [ (''@path'', Str ''test''), (''@totalFiles'', Str ''1'') ]"

definition test_package :: package where
  "test_package = \<lparr> path = ''test'', source_files = [] \<rparr>"

definition example_doc :: pyval where
  "example_doc =
     Dict [(''CodeNarc'', Dict
       [ (''@version'', Str ''1.5''),
         (''PackageSummary'', Dict [(''@totalFiles'', Str ''3''), (''@filesWithViolations'', Str ''2'')]),
         (''Package'', Lst [top_package_xml, src_package_xml, test_package_xml]) ])]"

definition example_report :: report where
  "example_report =
     \<lparr> total_files = ''3'', packages = [top_package, src_package, test_package] \<rparr>"

definition parse_example :: "string \<Rightarrow> error + pyval" where
  "parse_example xml_text = Inr example_doc"

definition repr_example :: "pyval \<Rightarrow> string" where
  "repr_example v = ''{}''"

text \<open>A report with one package, one file and one violation, all bare.\<close>

definition single_doc :: pyval where
  "single_doc =
     Dict [(''CodeNarc'', Dict
       [ (''PackageSummary'', Dict [(''@totalFiles'', Str ''1'')]),
         (''Package'', Dict
           [ (''@path'', Str ''src''),
             (''File'', Dict
               [ (''@name'', Str ''A.groovy''),
                 (''Violation'', Dict
                   [ (''@ruleName'', Str ''EmptyIf''),
                     (''@lineNumber'', Str ''7''),
                     (''Message'', Str ''empty'') ]) ]) ]) ])]"

definition single_report :: report where
  "single_report =
     \<lparr> total_files = ''1'',
       packages =
         [ \<lparr> path = ''src'',
             source_files =
               [ \<lparr> file_name = ''A.groovy'',
                   violations =
                     [ \<lparr> rule_name = ''EmptyIf'', line_number = ''7'', message = ''empty'' \<rparr> ] \<rparr> ] \<rparr> ] \<rparr>"

definition parse_single :: "string \<Rightarrow> error + pyval" where
  "parse_single xml_text = Inr single_doc"

text \<open>A report of two scanned files without violations: the top-level package has no
  File element.\<close>

definition quiet_doc :: pyval where
  "quiet_doc =
     Dict [(''CodeNarc'', Dict
       [ (''PackageSummary'', Dict [(''@totalFiles'', Str ''2'')]),
         (''Package'', Dict [ (''@path'', Str []), (''@totalFiles'', Str ''2'') ]) ])]"

definition quiet_report :: report where
  "quiet_report = \<lparr> total_files = ''2'', packages = [ \<lparr> path = [], source_files = [] \<rparr> ] \<rparr>"

definition parse_quiet :: "string \<Rightarrow> error + pyval" where
  "parse_quiet xml_text = Inr quiet_doc"

text \<open>A File element with no Violation child, and a report whose only file it is.\<close>

definition clean_file_xml :: pyval where
  "clean_file_xml = Dict [ (''@name'', Str ''Clean.groovy'') ]"

definition clean_file :: source_file where
  "clean_file = \<lparr> file_name = ''Clean.groovy'', violations = [] \<rparr>"

definition clean_file_doc :: pyval where
  "clean_file_doc =
     Dict [(''CodeNarc'', Dict
       [ (''PackageSummary'', Dict [(''@totalFiles'', Str ''1'')]),
         (''Package'', Dict [ (''@path'', Str ''src''), (''File'', clean_file_xml) ]) ])]"

definition clean_file_report :: report where
  "clean_file_report =
     \<lparr> total_files = ''1'', packages = [ \<lparr> path = ''src'', source_files = [clean_file] \<rparr> ] \<rparr>"

definition parse_clean_file :: "string \<Rightarrow> error + pyval" where
  "parse_clean_file xml_text = Inr clean_file_doc"

text \<open>A report of two scanned files without violations, each with a File element.\<close>

definition tidy_file_xml :: pyval where
  "tidy_file_xml = Dict [ (''@name'', Str ''Tidy.groovy'') ]"

definition tidy_file :: source_file where
  "tidy_file = \<lparr> file_name = ''Tidy.groovy'', violations = [] \<rparr>"

definition clean_files_doc :: pyval where
  "clean_files_doc =
     Dict [(''CodeNarc'', Dict
       [ (''PackageSummary'', Dict [(''@totalFiles'', Str ''2'')]),
         (''Package'', Dict
           [ (''@path'', Str []), (''File'', Lst [clean_file_xml, tidy_file_xml]) ]) ])]"

definition clean_files_report :: report where
  "clean_files_report =
     \<lparr> total_files = ''2'',
       packages = [ \<lparr> path = [], source_files = [clean_file, tidy_file] \<rparr> ] \<rparr>"

definition parse_clean_files :: "string \<Rightarrow> error + pyval" where
  "parse_clean_files xml_text = Inr clean_files_doc"

section \<open>The compile-failure marker in the text of the captured output\<close>

lemma bytes_quote_cases: "bytes_quote bs = CHR 0x27 \<or> bytes_quote bs = CHR 0x22"
  by (simp add: bytes_quote_def)

lemma concat_map_single: "(\<forall>c\<in>set m. f c = [c]) \<Longrightarrow> concat (map f m) = m"
  by (induction m) auto

lemma bytes_escape_plain:
  "c \<noteq> q \<Longrightarrow> c \<noteq> CHR 0x5C \<Longrightarrow> (0x20::nat) \<le> of_char c \<Longrightarrow> (of_char c :: nat) < 0x7F \<Longrightarrow>
     bytes_escape q c = [c]"
  by (auto simp: bytes_escape_def)

lemma marker_plain:
  assumes "q = CHR 0x27 \<or> q = CHR 0x22" and "c \<in> set ''Compilation failed''"
  shows "bytes_escape q c = [c]"
proof (rule bytes_escape_plain)
  show "c \<noteq> q" using assms by auto
  show "c \<noteq> CHR 0x5C" using assms(2) by auto
  show "(0x20::nat) \<le> of_char c" using assms(2) by auto
  show "(of_char c :: nat) < 0x7F" using assms(2) by auto
qed

lemma marker_escape:
  assumes "q = CHR 0x27 \<or> q = CHR 0x22"
  shows "concat (map (bytes_escape q) ''Compilation failed'') = ''Compilation failed''"
  by (rule concat_map_single) (blast intro: marker_plain [OF assms])

text \<open>The marker's characters are written as they are, so a marker in the bytes is a
  marker in their text.\<close>

lemma sublist_bytes_str:
  assumes "sublist ''Compilation failed'' bs"
  shows "sublist ''Compilation failed'' (bytes_str bs)"
proof -
  from assms obtain ps ss where bs: "bs = ps @ ''Compilation failed'' @ ss"
    unfolding sublist_def by blast
  define q where "q = bytes_quote bs"
  have "q = CHR 0x27 \<or> q = CHR 0x22"
    unfolding q_def by (rule bytes_quote_cases)
  then have m: "concat (map (bytes_escape q) ''Compilation failed'') = ''Compilation failed''"
    by (rule marker_escape)
  have "concat (map (bytes_escape q) bs) =
          concat (map (bytes_escape q) ps) @ ''Compilation failed'' @ concat (map (bytes_escape q) ss)"
    unfolding bs map_append concat_append m ..
  then have "bytes_str bs =
      (CHR ''b'' # q # concat (map (bytes_escape q) ps)) @ ''Compilation failed'' @
      (concat (map (bytes_escape q) ss) @ [q])"
    by (simp add: bytes_str_def Let_def q_def)
  then show ?thesis unfolding sublist_def by blast
qed

text \<open>
  Conversely, the text holds no marker that the bytes do not hold: every escape starts
  with a backslash and has no \<open>C\<close> in it, so a marker in the text lies in a run of
  bytes written as they are.
\<close>

lemma hexdigit_not_C: "hexdigit n \<noteq> CHR ''C''"
proof -
  have "hexdigit n \<in> set ''0123456789abcdef''"
    unfolding hexdigit_def by (rule nth_mem) simp
  then show ?thesis by auto
qed

lemma escape_shape:
  assumes "q = CHR 0x27 \<or> q = CHR 0x22"
  shows "bytes_escape q c = [c] \<or>
         (CHR ''C'' \<notin> set (bytes_escape q c) \<and> bytes_escape q c \<noteq> [] \<and>
          hd (bytes_escape q c) = CHR 0x5C)"
  using assms by (auto simp: bytes_escape_def hexdigit_not_C [THEN not_sym])

lemma prefix_escaped:
  assumes q: "q = CHR 0x27 \<or> q = CHR 0x22"
  shows "CHR 0x5C \<notin> set m \<Longrightarrow> q \<notin> set m \<Longrightarrow>
     prefix m (concat (map (bytes_escape q) bs) @ [q]) \<Longrightarrow> prefix m bs"
proof (induction bs arbitrary: m)
  case Nil
  then show ?case by (cases m) auto
next
  case (Cons c cs)
  show ?case
  proof (cases m)
    case Nil
    then show ?thesis by simp
  next
    case m: (Cons x m')
    from escape_shape [OF q, of c] show ?thesis
    proof
      assume plain: "bytes_escape q c = [c]"
      with Cons.prems m have "x = c" and "prefix m' (concat (map (bytes_escape q) cs) @ [q])"
        by auto
      moreover from Cons.prems m have "CHR 0x5C \<notin> set m'" "q \<notin> set m'" by auto
      ultimately show ?thesis using Cons.IH [of m'] m by simp
    next
      assume "CHR ''C'' \<notin> set (bytes_escape q c) \<and> bytes_escape q c \<noteq> [] \<and>
              hd (bytes_escape q c) = CHR 0x5C"
      then obtain t where "bytes_escape q c = CHR 0x5C # t"
        by (cases "bytes_escape q c") auto
      with Cons.prems m show ?thesis by auto
    qed
  qed
qed

lemma sublist_skip:
  "m \<noteq> [] \<Longrightarrow> hd m \<notin> set pre \<Longrightarrow> sublist m (pre @ r) \<longleftrightarrow> sublist m r"
proof (induction pre)
  case Nil
  then show ?case by simp
next
  case (Cons p pre)
  then have "\<not> prefix m (p # pre @ r)" by (cases m) auto
  with Cons show ?case by (simp add: sublist_Cons_right)
qed

lemma sublist_escaped:
  assumes q: "q = CHR 0x27 \<or> q = CHR 0x22"
      and m: "m \<noteq> []" "hd m = CHR ''C''" "CHR 0x5C \<notin> set m" "q \<notin> set m"
  shows "sublist m (concat (map (bytes_escape q) bs) @ [q]) \<Longrightarrow> sublist m bs"
proof (induction bs)
  case Nil
  with m show ?case by (cases m) (auto simp: sublist_Cons_right)
next
  case (Cons c cs)
  let ?r = "concat (map (bytes_escape q) cs) @ [q]"
  from escape_shape [OF q, of c] show ?case
  proof
    assume plain: "bytes_escape q c = [c]"
    with Cons.prems have "prefix m (c # ?r) \<or> sublist m ?r"
      by (simp add: sublist_Cons_right)
    then show ?thesis
    proof
      assume "prefix m (c # ?r)"
      with plain have "prefix m (concat (map (bytes_escape q) (c # cs)) @ [q])" by simp
      with m have "prefix m (c # cs)" using prefix_escaped [OF q] by blast
      then show ?thesis by (rule prefix_imp_sublist)
    next
      assume "sublist m ?r"
      then have "sublist m cs" by (rule Cons.IH)
      then show ?thesis by (simp add: sublist_Cons_right)
    qed
  next
    assume "CHR ''C'' \<notin> set (bytes_escape q c) \<and> bytes_escape q c \<noteq> [] \<and>
            hd (bytes_escape q c) = CHR 0x5C"
    with m have "hd m \<notin> set (bytes_escape q c)" by simp
    with m(1) have "sublist m (bytes_escape q c @ ?r) \<longleftrightarrow> sublist m ?r"
      by (rule sublist_skip)
    with Cons.prems have "sublist m ?r" by simp
    then have "sublist m cs" by (rule Cons.IH)
    then show ?thesis by (simp add: sublist_Cons_right)
  qed
qed

lemma bytes_str_sublist:
  assumes "sublist ''Compilation failed'' (bytes_str bs)"
  shows "sublist ''Compilation failed'' bs"
proof -
  define q where "q = bytes_quote bs"
  have q: "q = CHR 0x27 \<or> q = CHR 0x22"
    unfolding q_def by (rule bytes_quote_cases)
  have "bytes_str bs = [CHR ''b'', q] @ (concat (map (bytes_escape q) bs) @ [q])"
    by (simp add: bytes_str_def q_def Let_def)
  moreover have "hd ''Compilation failed'' \<notin> set [CHR ''b'', q]"
    using q by auto
  ultimately have "sublist ''Compilation failed'' (concat (map (bytes_escape q) bs) @ [q])"
    using assms sublist_skip [of "''Compilation failed''" "[CHR ''b'', q]"] by simp
  moreover have "CHR 0x5C \<notin> set ''Compilation failed''" "q \<notin> set ''Compilation failed''"
    using q by auto
  ultimately show ?thesis
    using sublist_escaped [OF q, of "''Compilation failed''" bs] by simp
qed

lemma compilation_failed_iff:
  "sublist ''Compilation failed'' (bytes_str bs) \<longleftrightarrow> sublist ''Compilation failed'' bs"
  using bytes_str_sublist sublist_bytes_str by blast

section \<open>The invoker's failure conditions and its cleanup\<close>

lemma files_remove_report_file:
  "files (remove_report_file report_file w) = (files w)(report_file := None)"
  by (auto simp: remove_report_file_def)

lemma console_remove_report_file:
  "console (remove_report_file report_file w) = console w"
  by (simp add: remove_report_file_def)

text \<open>
  Claim C3. When the captured output of the process holds the bytes
  \<^verbatim>\<open>Compilation failed\<close>, \<^verbatim>\<open>run_codenarc\<close> raises
  \<^verbatim>\<open>ValueError('Error when compiling files!')\<close> and the report file is not on disk
  afterwards, whatever the exit code of the process.
\<close>

theorem run_codenarc_compilation_failed:
  assumes "subprocess_run (codenarc_call a report_file) w = (w1, Inr output)"
      and "sublist ''Compilation failed'' (stdout output)"
  shows "snd (run_codenarc subprocess_run read_text a report_file w) =
           Inl (ValueError ''Error when compiling files!'')
       \<and> files (fst (run_codenarc subprocess_run read_text a report_file w)) report_file = None"
  using assms
  by (simp add: run_codenarc_def Let_def compilation_failed_iff files_remove_report_file)

theorem run_codenarc_compilation_failed_witness:
  "sublist ''Compilation failed''
     (stdout \<lparr> stdout = ''Compilation failed for [Broken.groovy]'', returncode = 1 \<rparr>)
   \<and> returncode \<lparr> stdout = ''Compilation failed for [Broken.groovy]'', returncode = 1 \<rparr> = 1
   \<and> snd (run_codenarc run_compile_failure read_ascii example_args DEFAULT_REPORT_FILE empty_world) =
           Inl (ValueError ''Error when compiling files!'')
   \<and> files (fst (run_codenarc run_compile_failure read_ascii example_args DEFAULT_REPORT_FILE empty_world))
        DEFAULT_REPORT_FILE = None"
proof -
  have run: "run_compile_failure (codenarc_call example_args DEFAULT_REPORT_FILE) empty_world =
          (empty_world\<lparr>files := (files empty_world)(''codenarc-report.xml'' \<mapsto> ''<CodeNarc/>'')\<rparr>,
           Inr \<lparr> stdout = ''Compilation failed for [Broken.groovy]'', returncode = 1 \<rparr>)"
    by (simp add: run_compile_failure_def)
  have marker: "sublist ''Compilation failed''
          (stdout \<lparr> stdout = ''Compilation failed for [Broken.groovy]'', returncode = 1 \<rparr>)"
    by (simp add: sublist_code)
  from run_codenarc_compilation_failed
    [of run_compile_failure example_args DEFAULT_REPORT_FILE empty_world _ _ read_ascii,
     OF run marker] marker
  show ?thesis by simp
qed

text \<open>
  Claim C4, as the code has it. Once the process has returned, on the three failure
  paths of \<^verbatim>\<open>run_codenarc\<close> (compile failure, non-zero exit code, missing report) and on
  the success path, where the report has been read, the files on disk at the end are
  those the process left, without the report file; and removing the report file again,
  now that it is absent, changes nothing. When the three checks pass and opening or
  reading the report raises, the exception leaves \<^verbatim>\<open>run_codenarc\<close> and the files on disk
  are those the process left, the report file among them.
\<close>

theorem run_codenarc_no_report_left:
  assumes "subprocess_run (codenarc_call a report_file) w = (w1, Inr output)"
  shows "(sublist ''Compilation failed'' (stdout output) \<or> returncode output \<noteq> 0 \<or>
          files w1 report_file = None \<or>
          (\<exists>content xml_text. files w1 report_file = Some content \<and>
                               read_text report_file content = Inr xml_text)
          \<longrightarrow> files (fst (run_codenarc subprocess_run read_text a report_file w)) =
                (files w1)(report_file := None)
            \<and> remove_report_file report_file
                (fst (run_codenarc subprocess_run read_text a report_file w)) =
                fst (run_codenarc subprocess_run read_text a report_file w))
       \<and> (\<not> sublist ''Compilation failed'' (stdout output) \<and> returncode output = 0 \<and>
          files w1 report_file = Some content \<and> read_text report_file content = Inl e
          \<longrightarrow> snd (run_codenarc subprocess_run read_text a report_file w) = Inl e
            \<and> files (fst (run_codenarc subprocess_run read_text a report_file w)) = files w1)"
proof (intro conjI impI)
  assume paths: "sublist ''Compilation failed'' (stdout output) \<or> returncode output \<noteq> 0 \<or>
          files w1 report_file = None \<or>
          (\<exists>content xml_text. files w1 report_file = Some content \<and>
                               read_text report_file content = Inr xml_text)"
  then show removed: "files (fst (run_codenarc subprocess_run read_text a report_file w)) =
                (files w1)(report_file := None)"
    using assms
    by (auto simp: run_codenarc_def Let_def compilation_failed_iff files_remove_report_file)
  then show "remove_report_file report_file
                (fst (run_codenarc subprocess_run read_text a report_file w)) =
                fst (run_codenarc subprocess_run read_text a report_file w)"
    by (simp add: remove_report_file_def)
next
  assume raised: "\<not> sublist ''Compilation failed'' (stdout output) \<and> returncode output = 0 \<and>
          files w1 report_file = Some content \<and> read_text report_file content = Inl e"
  with assms show "snd (run_codenarc subprocess_run read_text a report_file w) = Inl e"
    by (simp add: run_codenarc_def Let_def compilation_failed_iff)
  from raised assms show "files (fst (run_codenarc subprocess_run read_text a report_file w)) = files w1"
    by (simp add: run_codenarc_def Let_def compilation_failed_iff)
qed

theorem run_codenarc_no_report_left_witness:
  "files (fst (run_ok (codenarc_call example_args DEFAULT_REPORT_FILE) empty_world))
      DEFAULT_REPORT_FILE = Some ''<CodeNarc></CodeNarc>''
   \<and> read_ascii DEFAULT_REPORT_FILE ''<CodeNarc></CodeNarc>'' = Inr ''<CodeNarc></CodeNarc>''
   \<and> run_codenarc run_ok read_ascii example_args DEFAULT_REPORT_FILE empty_world =
       (\<lparr> files = Map.empty, console = ''CodeNarc completed'' \<rparr>, Inr ''<CodeNarc></CodeNarc>'')
   \<and> files (fst (run_codenarc run_ok read_ascii example_args DEFAULT_REPORT_FILE empty_world))
        DEFAULT_REPORT_FILE = None
   \<and> read_ascii DEFAULT_REPORT_FILE [CHR ''<'', CHR 0xE9, CHR ''>''] = Inl UnicodeDecodeError
   \<and> snd (run_codenarc run_badly_encoded read_ascii example_args DEFAULT_REPORT_FILE empty_world) =
       Inl UnicodeDecodeError
   \<and> files (fst (run_codenarc run_badly_encoded read_ascii example_args DEFAULT_REPORT_FILE
                  empty_world)) DEFAULT_REPORT_FILE = Some [CHR ''<'', CHR 0xE9, CHR ''>'']"
proof -
  let ?w1 = "empty_world\<lparr>files := (files empty_world)(''codenarc-report.xml'' \<mapsto> ''<CodeNarc></CodeNarc>'')\<rparr>"
  let ?out = "\<lparr> stdout = ''CodeNarc completed'', returncode = 0 \<rparr>"
  let ?w1' = "empty_world\<lparr>files := (files empty_world)(''codenarc-report.xml'' \<mapsto> [CHR ''<'', CHR 0xE9, CHR ''>''])\<rparr>"
  have run: "run_ok (codenarc_call example_args DEFAULT_REPORT_FILE) empty_world = (?w1, Inr ?out)"
    by (simp add: run_ok_def)
  have written: "files ?w1 DEFAULT_REPORT_FILE = Some ''<CodeNarc></CodeNarc>''"
    by (simp add: DEFAULT_REPORT_FILE_def)
  have decoded: "read_ascii DEFAULT_REPORT_FILE ''<CodeNarc></CodeNarc>'' = Inr ''<CodeNarc></CodeNarc>''"
    by (simp add: read_ascii_def)
  have result: "run_codenarc run_ok read_ascii example_args DEFAULT_REPORT_FILE empty_world =
     (\<lparr> files = Map.empty, console = ''CodeNarc completed'' \<rparr>, Inr ''<CodeNarc></CodeNarc>'')"
    by (simp add: run_codenarc_def run_ok_def Let_def compilation_failed_iff sublist_code
          DEFAULT_REPORT_FILE_def empty_world_def remove_report_file_def read_ascii_def)
  from written decoded
  have path: "sublist ''Compilation failed'' (stdout ?out) \<or> returncode ?out \<noteq> 0 \<or>
          files ?w1 DEFAULT_REPORT_FILE = None \<or>
          (\<exists>content xml_text. files ?w1 DEFAULT_REPORT_FILE = Some content \<and>
                               read_ascii DEFAULT_REPORT_FILE content = Inr xml_text)"
    by blast
  from run_codenarc_no_report_left
    [of run_ok example_args DEFAULT_REPORT_FILE empty_world ?w1 ?out read_ascii, OF run,
     THEN conjunct1, rule_format, OF path]
  have removed: "files (fst (run_codenarc run_ok read_ascii example_args DEFAULT_REPORT_FILE empty_world))
        DEFAULT_REPORT_FILE = None"
    by simp
  have run': "run_badly_encoded (codenarc_call example_args DEFAULT_REPORT_FILE) empty_world =
      (?w1', Inr ?out)"
    by (simp add: run_badly_encoded_def)
  have undecoded: "read_ascii DEFAULT_REPORT_FILE [CHR ''<'', CHR 0xE9, CHR ''>''] = Inl UnicodeDecodeError"
    by (simp add: read_ascii_def)
  have raised: "\<not> sublist ''Compilation failed'' (stdout ?out) \<and> returncode ?out = 0 \<and>
          files ?w1' DEFAULT_REPORT_FILE = Some [CHR ''<'', CHR 0xE9, CHR ''>''] \<and>
          read_ascii DEFAULT_REPORT_FILE [CHR ''<'', CHR 0xE9, CHR ''>''] = Inl UnicodeDecodeError"
    using undecoded by (simp add: sublist_code DEFAULT_REPORT_FILE_def)
  from run_codenarc_no_report_left
    [of run_badly_encoded example_args DEFAULT_REPORT_FILE empty_world ?w1' ?out read_ascii
        "[CHR ''<'', CHR 0xE9, CHR ''>'']" UnicodeDecodeError,
     OF run', THEN conjunct2, rule_format, OF raised]
  have left: "snd (run_codenarc run_badly_encoded read_ascii example_args DEFAULT_REPORT_FILE empty_world) =
       Inl UnicodeDecodeError
     \<and> files (fst (run_codenarc run_badly_encoded read_ascii example_args DEFAULT_REPORT_FILE
                  empty_world)) DEFAULT_REPORT_FILE = Some [CHR ''<'', CHR 0xE9, CHR ''>'']"
    by (simp add: DEFAULT_REPORT_FILE_def)
  from run written decoded result removed undecoded left show ?thesis by simp
qed

text \<open>
  Claim C4 as stated fails: the process exits with code 0, its output has no marker and
  it has written a report that cannot be decoded; reading it raises, and the report
  file is still on disk when \<^verbatim>\<open>run_codenarc\<close> is left.
\<close>

theorem run_codenarc_report_left_counterexample:
  "run_codenarc run_badly_encoded read_ascii example_args DEFAULT_REPORT_FILE empty_world =
     (\<lparr> files = [''codenarc-report.xml'' \<mapsto> [CHR ''<'', CHR 0xE9, CHR ''>'']],
        console = ''CodeNarc completed'' \<rparr>,
      Inl UnicodeDecodeError)
   \<and> files (fst (run_codenarc run_badly_encoded read_ascii example_args DEFAULT_REPORT_FILE
                  empty_world)) DEFAULT_REPORT_FILE \<noteq> None"
  by (simp add: run_codenarc_def run_badly_encoded_def Let_def compilation_failed_iff sublist_code
        DEFAULT_REPORT_FILE_def empty_world_def read_ascii_def)

text \<open>
  Claim C5. When the captured output holds no compile-failure marker and the exit code
  of the process is not zero, \<^verbatim>\<open>run_codenarc\<close> raises the \<^verbatim>\<open>ValueError\<close> whose message
  is \<^verbatim>\<open>CodeNarc failed with return code\<close> followed by the exit code in decimal.
\<close>

theorem run_codenarc_tool_failure:
  assumes "subprocess_run (codenarc_call a report_file) w = (w1, Inr output)"
      and "\<not> sublist ''Compilation failed'' (stdout output)"
      and "returncode output \<noteq> 0"
  shows "snd (run_codenarc subprocess_run read_text a report_file w) =
           Inl (ValueError (''CodeNarc failed with return code '' @ str_int (returncode output)))"
  using assms
  by (simp add: run_codenarc_def Let_def compilation_failed_iff)

theorem run_codenarc_tool_failure_witness:
  "\<not> sublist ''Compilation failed'' (stdout \<lparr> stdout = ''Killed'', returncode = - 9 \<rparr>)
   \<and> returncode \<lparr> stdout = ''Killed'', returncode = - 9 \<rparr> \<noteq> 0
   \<and> snd (run_codenarc run_killed read_ascii example_args DEFAULT_REPORT_FILE empty_world) =
           Inl (ValueError ''CodeNarc failed with return code -9'')"
proof -
  have run: "run_killed (codenarc_call example_args DEFAULT_REPORT_FILE) empty_world =
          (empty_world\<lparr>files := (files empty_world)(''codenarc-report.xml'' \<mapsto> ''<CodeNarc>'')\<rparr>,
           Inr \<lparr> stdout = ''Killed'', returncode = - 9 \<rparr>)"
    by (simp add: run_killed_def)
  have marker: "\<not> sublist ''Compilation failed'' (stdout \<lparr> stdout = ''Killed'', returncode = - 9 \<rparr>)"
    by (simp add: sublist_code)
  have code: "returncode \<lparr> stdout = ''Killed'', returncode = - 9 \<rparr> \<noteq> 0"
    by simp
  have decimal: "str_int (- 9) = ''-9''"
    by (simp add: str_int_def str_nat.simps digit_def)
  from run_codenarc_tool_failure
    [of run_killed example_args DEFAULT_REPORT_FILE empty_world _ _ read_ascii,
     OF run marker code] marker decimal
  show ?thesis by simp
qed

text \<open>
  Claim C6. When the exit code is zero, the captured output holds no compile-failure
  marker and the report file is not on disk after the process, \<^verbatim>\<open>run_codenarc\<close> raises
  the \<^verbatim>\<open>ValueError\<close> whose message says that the report file was not generated.
\<close>

theorem run_codenarc_missing_report:
  assumes "subprocess_run (codenarc_call a report_file) w = (w1, Inr output)"
      and "\<not> sublist ''Compilation failed'' (stdout output)"
      and "returncode output = 0"
      and "files w1 report_file = None"
  shows "snd (run_codenarc subprocess_run read_text a report_file w) =
           Inl (ValueError (report_file @ '' was not generated, aborting!''))"
  using assms
  by (simp add: run_codenarc_def Let_def compilation_failed_iff)

theorem run_codenarc_missing_report_witness:
  "\<not> sublist ''Compilation failed'' (stdout \<lparr> stdout = [], returncode = 0 \<rparr>)
   \<and> returncode \<lparr> stdout = [], returncode = 0 \<rparr> = 0
   \<and> files empty_world DEFAULT_REPORT_FILE = None
   \<and> snd (run_codenarc run_silent read_ascii example_args DEFAULT_REPORT_FILE empty_world) =
           Inl (ValueError ''codenarc-report.xml was not generated, aborting!'')"
proof -
  have run: "run_silent (codenarc_call example_args DEFAULT_REPORT_FILE) empty_world =
          (empty_world, Inr \<lparr> stdout = [], returncode = 0 \<rparr>)"
    by (simp add: run_silent_def)
  have marker: "\<not> sublist ''Compilation failed'' (stdout \<lparr> stdout = [], returncode = 0 \<rparr>)"
    by simp
  have code: "returncode \<lparr> stdout = [], returncode = 0 \<rparr> = 0"
    by simp
  have absent: "files empty_world DEFAULT_REPORT_FILE = None"
    by (simp add: empty_world_def)
  from run_codenarc_missing_report
    [of run_silent example_args DEFAULT_REPORT_FILE empty_world _ _ read_ascii,
     OF run marker code absent]
    marker absent
  show ?thesis by (simp add: DEFAULT_REPORT_FILE_def)
qed

section \<open>The printer on a report\<close>

lemma children_Nil:
  "children R x k [] \<Longrightarrow> subscript x k = Inl (KeyError k)"
  by (auto simp: children_def split: sum.splits pyval.splits)

lemma children_Cons:
  assumes "children R x k ys" and "ys \<noteq> []"
  shows "\<exists>y. subscript x k = Inr y \<and> list_all2 R (safe_list_wrapper y) ys"
  using assms by (auto simp: children_def split: sum.splits pyval.splits)

lemma children_py_in:
  assumes "children R x k ys"
  shows "py_in k x = Inr (ys \<noteq> [])"
proof (cases x)
  case (Dict d)
  with assms show ?thesis
    by (auto simp: children_def split: option.splits pyval.splits)
qed (use assms in \<open>auto simp: children_def\<close>)

lemma print_violations_loop_lines:
  assumes "list_all2 is_violation xs vs"
  shows "print_violations_loop repr package_file_path xs out =
           (out @ map (\<lambda>v. package_file_path @ '':'' @ line_number v @ '': '' @
                              rule_name v @ '': '' @ message v) vs, None)"
  using assms
proof (induction xs vs arbitrary: out rule: list_all2_induct)
  case Nil
  then show ?case by simp
next
  case (Cons x xs v vs)
  from Cons.hyps(1) have
    "subscript x ''@ruleName'' = Inr (Str (rule_name v))"
    "subscript x ''Message'' = Inr (Str (message v))"
    "subscript x ''@lineNumber'' = Inr (Str (line_number v))"
    by (simp_all add: is_violation_def attribute_def)
  then show ?case
    by (simp add: Cons.IH)
qed

lemma violation_line_path:
  "(package_name @ ''/'' @ file) @ '':'' @ line_number v @ '': '' @ rule_name v @ '': '' @ message v =
     violation_line package_name file v"
  by (simp add: violation_line_def)

lemma print_violations_lines:
  assumes "list_all2 is_violation xs vs"
  shows "print_violations repr (package_name @ ''/'' @ file) xs out =
           (out @ map (violation_line package_name file) vs, Inr (int (length vs)))"
  using list_all2_lengthD [OF assms]
  unfolding print_violations_def print_violations_loop_lines [OF assms] violation_line_path
  by simp

text \<open>The loop over the files of a package, through files that have violations.\<close>

lemma print_violations_in_files_loop_append:
  assumes "list_all2 is_file xs fs" and "\<forall>f \<in> set fs. violations f \<noteq> []"
  shows "print_violations_in_files_loop repr (Str package_name) (xs @ zs) n out =
         print_violations_in_files_loop repr (Str package_name) zs
           (n + int (count_in_files fs)) (out @ concat (map (file_lines package_name) fs))"
  using assms
proof (induction xs fs arbitrary: n out rule: list_all2_induct)
  case Nil
  then show ?case by (simp add: count_in_files_def)
next
  case (Cons x xs f fs)
  from Cons.hyps(1) have name: "subscript x ''@name'' = Inr (Str (file_name f))"
    and ch: "children is_violation x ''Violation'' (violations f)"
    by (simp_all add: is_file_def attribute_def)
  from Cons.prems have "violations f \<noteq> []" by simp
  with ch obtain y where y: "subscript x ''Violation'' = Inr y"
    and vs: "list_all2 is_violation (safe_list_wrapper y) (violations f)"
    using children_Cons by blast
  have rest: "\<forall>f \<in> set fs. violations f \<noteq> []" using Cons.prems by simp
  show ?case
    using name y print_violations_lines [OF vs, of repr package_name "file_name f" out]
      Cons.IH [OF rest]
    by (simp add: file_lines_def count_in_files_def add.assoc)
qed

lemma print_violations_in_files_loop_lines:
  assumes "list_all2 is_file xs fs" and "\<forall>f \<in> set fs. violations f \<noteq> []"
  shows "print_violations_in_files_loop repr (Str package_name) xs n out =
           (out @ concat (map (file_lines package_name) fs), Inr (n + int (count_in_files fs)))"
  using print_violations_in_files_loop_append [OF assms, of repr package_name "[]" n out]
  by simp

lemma packages_with_file_filter:
  assumes "list_all2 is_package xs ps"
  shows "\<exists>ys. packages_with_file xs = Inr ys \<and>
              list_all2 is_package ys (filter (\<lambda>p. source_files p \<noteq> []) ps)"
  using assms
proof (induction xs ps rule: list_all2_induct)
  case Nil
  then show ?case by simp
next
  case (Cons x xs p ps)
  from Cons.hyps(1) have "children is_file x ''File'' (source_files p)"
    by (simp add: is_package_def)
  then have "py_in ''File'' x = Inr (source_files p \<noteq> [])"
    by (rule children_py_in)
  with Cons show ?case by auto
qed

lemma print_violations_in_packages_loop_lines:
  assumes "list_all2 is_package xs ps"
      and "\<forall>p \<in> set ps. source_files p \<noteq> []"
      and "\<forall>p \<in> set ps. \<forall>f \<in> set (source_files p). violations f \<noteq> []"
  shows "print_violations_in_packages_loop repr xs n out =
           (out @ concat (map package_lines ps),
            Inr (n + int (sum_list (map (\<lambda>p. count_in_files (source_files p)) ps))))"
  using assms
proof (induction xs ps arbitrary: n out rule: list_all2_induct)
  case Nil
  then show ?case by simp
next
  case (Cons x xs p ps)
  from Cons.hyps(1) have pth: "subscript x ''@path'' = Inr (Str (path p))"
    and ch: "children is_file x ''File'' (source_files p)"
    by (simp_all add: is_package_def attribute_def)
  from Cons.prems have "source_files p \<noteq> []" by simp
  with ch obtain y where y: "subscript x ''File'' = Inr y"
    and fs: "list_all2 is_file (safe_list_wrapper y) (source_files p)"
    using children_Cons by blast
  from Cons.prems have vs: "\<forall>f \<in> set (source_files p). violations f \<noteq> []" by simp
  have shown: "(if \<not> truthy (Str (path p)) then Str ''.'' else Str (path p)) = Str (shown_path p)"
    by (simp add: shown_path_def)
  have in_files: "print_violations_in_files repr (Str (shown_path p)) (safe_list_wrapper y) out =
      (out @ package_lines p, Inr (int (count_in_files (source_files p))))"
    using print_violations_in_files_loop_lines [OF fs vs, of repr "shown_path p" 0 out]
    by (simp add: print_violations_in_files_def package_lines_def)
  have rest: "\<forall>p \<in> set ps. source_files p \<noteq> []"
    "\<forall>p \<in> set ps. \<forall>f \<in> set (source_files p). violations f \<noteq> []"
    using Cons.prems by simp_all
  show ?case
    using pth y in_files Cons.IH [OF rest]
    by (simp add: shown Let_def del: truthy.simps)
qed

lemma package_lines_no_files: "source_files p = [] \<Longrightarrow> package_lines p = []"
  by (simp add: package_lines_def)

lemma report_lines_filter:
  "concat (map package_lines (filter (\<lambda>p. source_files p \<noteq> []) ps)) = concat (map package_lines ps)"
  by (induction ps) (auto simp: package_lines_no_files)

lemma count_filter:
  "sum_list (map (\<lambda>p. count_in_files (source_files p)) (filter (\<lambda>p. source_files p \<noteq> []) ps)) =
   sum_list (map (\<lambda>p. count_in_files (source_files p)) ps)"
  by (induction ps) (auto simp: count_in_files_def)

text \<open>One pass of \<^verbatim>\<open>_print_violations_in_packages\<close> over the packages of a report.\<close>

lemma print_violations_in_packages_lines:
  assumes "list_all2 is_package xs ps"
      and "\<forall>p \<in> set ps. \<forall>f \<in> set (source_files p). violations f \<noteq> []"
  shows "print_violations_in_packages repr xs out =
           (out @ concat (map package_lines ps),
            Inr (int (sum_list (map (\<lambda>p. count_in_files (source_files p)) ps))))"
proof -
  let ?ps = "filter (\<lambda>p. source_files p \<noteq> []) ps"
  from packages_with_file_filter [OF assms(1)] obtain ys
    where ys: "packages_with_file xs = Inr ys" and rel: "list_all2 is_package ys ?ps"
    by blast
  have a: "\<forall>p \<in> set ?ps. source_files p \<noteq> []" by simp
  have b: "\<forall>p \<in> set ?ps. \<forall>f \<in> set (source_files p). violations f \<noteq> []"
    using assms(2) by auto
  show ?thesis
    using ys print_violations_in_packages_loop_lines [OF rel a b, of repr 0 out]
    by (simp add: print_violations_in_packages_def report_lines_filter count_filter)
qed

lemma length_report_lines: "length (report_lines r) = count_violations r"
  by (simp add: report_lines_def count_violations_def package_lines_def count_in_files_def
        file_lines_def length_concat comp_def)

text \<open>
  The whole of \<^verbatim>\<open>parse_xml_report\<close>: the first pass prints the violation lines and
  counts them; after the line with the number of files, a report without violations
  ends with the success message, and a report with violations gets the summary line and
  a second pass, which prints the violation lines once more.
\<close>

lemma parse_xml_report_result:
  assumes parse: "xmltodict_parse xml_text = Inr xml_doc"
      and doc: "is_report xml_doc r"
      and wf: "listed_with_violations r"
  shows "parse_xml_report xmltodict_parse repr xml_text out =
     (if count_violations r = 0
      then (out @ report_lines r @
              [''Scanned '' @ total_files r @ '' files'', ''No violations found''], Inr 0)
      else (out @ report_lines r @
              [''Scanned '' @ total_files r @ '' files'',
               ''Found '' @ str_int (int (count_violations r)) @ '' violation(s):''] @
              report_lines r,
            Inr (int (count_violations r))))"
proof -
  from doc obtain codenarc package_summary where
    c: "subscript xml_doc ''CodeNarc'' = Inr codenarc" and
    s: "subscript codenarc ''PackageSummary'' = Inr package_summary" and
    t: "subscript package_summary ''@totalFiles'' = Inr (Str (total_files r))" and
    ch: "children is_package codenarc ''Package'' (packages r)"
    by (auto simp: is_report_def attribute_def split: sum.splits)
  from wf have ne: "packages r \<noteq> []"
    and vs: "\<forall>p \<in> set (packages r). \<forall>f \<in> set (source_files p). violations f \<noteq> []"
    by (simp_all add: listed_with_violations_def)
  from children_Cons [OF ch ne] obtain y where
    y: "subscript codenarc ''Package'' = Inr y" and
    ps: "list_all2 is_package (safe_list_wrapper y) (packages r)"
    by blast
  have pk: "codenarc_package xml_doc = Inr y"
    using c y by (simp add: codenarc_package_def)
  note pass = print_violations_in_packages_lines
    [OF ps vs, of repr, folded report_lines_def count_violations_def]
  show ?thesis
    using parse c s t pk
    by (simp add: parse_xml_report_def pass Let_def)
qed

text \<open>The example documents are the renderings of the example reports.\<close>

lemma is_report_example: "is_report example_doc example_report"
  by (simp add: is_report_def example_doc_def example_report_def children_def attribute_def
        is_package_def is_file_def is_violation_def top_package_xml_def top_package_def
        src_package_xml_def src_package_def test_package_xml_def test_package_def
        flagged_file_xml_def flagged_file_def)

lemma listed_example: "listed_with_violations example_report"
  by (simp add: listed_with_violations_def example_report_def top_package_def src_package_def
        test_package_def flagged_file_def)

lemma report_lines_example:
  "report_lines example_report =
     [''./build.groovy:3: UnusedImport: unused'',
      ''src/A.groovy:7: EmptyIf: empty'',
      ''src/A.groovy:9: EmptyElse: empty'']"
  by (simp add: report_lines_def package_lines_def file_lines_def violation_line_def
        shown_path_def example_report_def top_package_def src_package_def test_package_def
        flagged_file_def)

lemma count_violations_example: "count_violations example_report = 3"
  using length_report_lines [of example_report] by (simp add: report_lines_example)

lemma is_report_quiet: "is_report quiet_doc quiet_report"
  by (simp add: is_report_def quiet_doc_def quiet_report_def children_def attribute_def
        is_package_def)

lemma listed_quiet: "listed_with_violations quiet_report"
  by (simp add: listed_with_violations_def quiet_report_def)

lemma count_violations_quiet: "count_violations quiet_report = 0"
  by (simp add: count_violations_def quiet_report_def count_in_files_def)

section \<open>Claims about the printer\<close>

text \<open>
  Claim C1, as the code has it. For a report with \<open>N\<close> violations, rendered with at
  least one package and with File elements only for files with violations,
  \<^verbatim>\<open>parse_xml_report\<close> prints the \<open>N\<close> violation lines of the report, one per violation in
  document order, each of the form \<^verbatim>\<open><package>/<file>:<line>: <ruleName>: <message>\<close>
  (with \<^verbatim>\<open>.\<close> for the empty package path), before the line with the number of files
  scanned; when \<open>N\<close> is not zero it prints the same \<open>N\<close> lines a second time after the
  summary line, \<open>2 * N\<close> violation lines in all.
\<close>

theorem parse_xml_report_prints_violations:
  assumes "xmltodict_parse xml_text = Inr xml_doc"
      and "is_report xml_doc r"
      and "listed_with_violations r"
  shows "fst (parse_xml_report xmltodict_parse repr xml_text out) =
           out @ report_lines r @ [''Scanned '' @ total_files r @ '' files''] @
           (if count_violations r = 0 then [''No violations found'']
            else [''Found '' @ str_int (int (count_violations r)) @ '' violation(s):''] @
                 report_lines r)
       \<and> length (report_lines r) = count_violations r"
  using parse_xml_report_result [of xmltodict_parse xml_text xml_doc r repr out, OF assms]
  by (simp add: length_report_lines)

theorem parse_xml_report_prints_violations_witness:
  "parse_example [] = Inr example_doc
   \<and> is_report example_doc example_report
   \<and> listed_with_violations example_report
   \<and> fst (parse_xml_report parse_example repr_example [] []) =
       [''./build.groovy:3: UnusedImport: unused'',
        ''src/A.groovy:7: EmptyIf: empty'',
        ''src/A.groovy:9: EmptyElse: empty'',
        ''Scanned 3 files'',
        ''Found 3 violation(s):'',
        ''./build.groovy:3: UnusedImport: unused'',
        ''src/A.groovy:7: EmptyIf: empty'',
        ''src/A.groovy:9: EmptyElse: empty'']"
proof -
  have parse: "parse_example [] = Inr example_doc"
    by (simp add: parse_example_def)
  have total: "total_files example_report = ''3''"
    by (simp add: example_report_def)
  have decimal: "str_int 3 = ''3''"
    by (simp add: str_int_def str_nat.simps digit_def)
  from parse_xml_report_prints_violations
    [of parse_example "[]" example_doc example_report repr_example "[]",
     OF parse is_report_example listed_example]
  have "fst (parse_xml_report parse_example repr_example [] []) =
       [''./build.groovy:3: UnusedImport: unused'',
        ''src/A.groovy:7: EmptyIf: empty'',
        ''src/A.groovy:9: EmptyElse: empty'',
        ''Scanned 3 files'',
        ''Found 3 violation(s):'',
        ''./build.groovy:3: UnusedImport: unused'',
        ''src/A.groovy:7: EmptyIf: empty'',
        ''src/A.groovy:9: EmptyElse: empty'']"
    by (simp add: report_lines_example count_violations_example total decimal)
  with parse is_report_example listed_example show ?thesis by simp
qed

text \<open>
  Claim C1 as stated fails: for the report with one package, one file and one violation
  the printer prints the violation line twice, not once.
\<close>

theorem parse_xml_report_prints_twice_counterexample:
  "is_report single_doc single_report
   \<and> listed_with_violations single_report
   \<and> count_violations single_report = 1
   \<and> fst (parse_xml_report parse_single repr_example [] []) =
       [''src/A.groovy:7: EmptyIf: empty'',
        ''Scanned 1 files'',
        ''Found 1 violation(s):'',
        ''src/A.groovy:7: EmptyIf: empty'']
   \<and> count_list (fst (parse_xml_report parse_single repr_example [] []))
         ''src/A.groovy:7: EmptyIf: empty'' = 2"
proof -
  have doc: "is_report single_doc single_report"
    by (simp add: is_report_def single_doc_def single_report_def children_def attribute_def
          is_package_def is_file_def is_violation_def)
  have listed: "listed_with_violations single_report"
    by (simp add: listed_with_violations_def single_report_def)
  have count: "count_violations single_report = 1"
    by (simp add: count_violations_def count_in_files_def single_report_def)
  have printed: "fst (parse_xml_report parse_single repr_example [] []) =
       [''src/A.groovy:7: EmptyIf: empty'',
        ''Scanned 1 files'',
        ''Found 1 violation(s):'',
        ''src/A.groovy:7: EmptyIf: empty'']"
    by (simp add: parse_xml_report_def parse_single_def single_doc_def codenarc_package_def
          print_violations_in_packages_def print_violations_in_files_def print_violations_def
          Let_def str_int_def str_nat.simps digit_def)
  have twice: "count_list
       [''src/A.groovy:7: EmptyIf: empty'',
        ''Scanned 1 files'',
        ''Found 1 violation(s):'',
        ''src/A.groovy:7: EmptyIf: empty''] ''src/A.groovy:7: EmptyIf: empty'' = 2"
    by simp
  from doc listed count printed twice show ?thesis by simp
qed

text \<open>
  Claim C2, as the code has it. For a report with \<open>N\<close> violations, rendered with at
  least one package and with File elements only for files with violations,
  \<^verbatim>\<open>parse_xml_report\<close> returns \<open>N\<close>.
  When \<open>N\<close> is zero it prints the number of files scanned and then
  \<^verbatim>\<open>No violations found\<close>, and nothing else; otherwise it prints the summary line
  \<^verbatim>\<open>Found N violation(s):\<close>.
\<close>

theorem parse_xml_report_returns_count:
  assumes "xmltodict_parse xml_text = Inr xml_doc"
      and "is_report xml_doc r"
      and "listed_with_violations r"
  shows "snd (parse_xml_report xmltodict_parse repr xml_text out) = Inr (int (count_violations r))
       \<and> (if count_violations r = 0
          then fst (parse_xml_report xmltodict_parse repr xml_text out) =
                 out @ [''Scanned '' @ total_files r @ '' files'', ''No violations found'']
          else ''Found '' @ str_int (int (count_violations r)) @ '' violation(s):''
                 \<in> set (fst (parse_xml_report xmltodict_parse repr xml_text out)))"
proof (cases "count_violations r = 0")
  case True
  then have "report_lines r = []"
    using length_report_lines [of r] by simp
  with True show ?thesis
    using parse_xml_report_result [of xmltodict_parse xml_text xml_doc r repr out, OF assms] by simp
next
  case False
  then show ?thesis
    using parse_xml_report_result [of xmltodict_parse xml_text xml_doc r repr out, OF assms] by simp
qed

theorem parse_xml_report_returns_count_witness:
  "parse_example [] = Inr example_doc
   \<and> is_report example_doc example_report
   \<and> listed_with_violations example_report
   \<and> snd (parse_xml_report parse_example repr_example [] []) = Inr 3
   \<and> ''Found 3 violation(s):'' \<in> set (fst (parse_xml_report parse_example repr_example [] []))
   \<and> parse_quiet [] = Inr quiet_doc
   \<and> is_report quiet_doc quiet_report
   \<and> listed_with_violations quiet_report
   \<and> parse_xml_report parse_quiet repr_example [] [] =
       ([''Scanned 2 files'', ''No violations found''], Inr 0)"
proof -
  have parse: "parse_example [] = Inr example_doc"
    by (simp add: parse_example_def)
  have decimal: "str_int 3 = ''3''"
    by (simp add: str_int_def str_nat.simps digit_def)
  from parse_xml_report_returns_count
    [of parse_example "[]" example_doc example_report repr_example "[]",
     OF parse is_report_example listed_example]
  have found: "snd (parse_xml_report parse_example repr_example [] []) = Inr 3
     \<and> ''Found 3 violation(s):'' \<in> set (fst (parse_xml_report parse_example repr_example [] []))"
    by (simp add: count_violations_example decimal)
  have parse_q: "parse_quiet [] = Inr quiet_doc"
    by (simp add: parse_quiet_def)
  have total: "total_files quiet_report = ''2''"
    by (simp add: quiet_report_def)
  from parse_xml_report_returns_count
    [of parse_quiet "[]" quiet_doc quiet_report repr_example "[]",
     OF parse_q is_report_quiet listed_quiet]
  have "snd (parse_xml_report parse_quiet repr_example [] []) = Inr 0
     \<and> fst (parse_xml_report parse_quiet repr_example [] []) =
         [''Scanned 2 files'', ''No violations found'']"
    by (simp add: count_violations_quiet total)
  then have quiet: "parse_xml_report parse_quiet repr_example [] [] =
       ([''Scanned 2 files'', ''No violations found''], Inr 0)"
    by (simp add: prod_eq_iff)
  from parse is_report_example listed_example found parse_q is_report_quiet listed_quiet quiet
  show ?thesis by simp
qed

text \<open>
  Claim C2 as stated fails: the report of two File elements without Violation children
  has zero violations, and the printer neither returns 0 nor prints the success message;
  it raises \<^verbatim>\<open>KeyError('Violation')\<close> at the first file.
\<close>

theorem parse_xml_report_no_count_counterexample:
  "is_report clean_files_doc clean_files_report
   \<and> count_violations clean_files_report = 0
   \<and> parse_xml_report parse_clean_files repr_example [] [] = ([], Inl (KeyError ''Violation''))"
proof -
  have doc: "is_report clean_files_doc clean_files_report"
    by (simp add: is_report_def clean_files_doc_def clean_files_report_def children_def
          attribute_def is_package_def is_file_def clean_file_xml_def clean_file_def
          tidy_file_xml_def tidy_file_def)
  have count: "count_violations clean_files_report = 0"
    by (simp add: count_violations_def count_in_files_def clean_files_report_def clean_file_def
          tidy_file_def)
  have raised: "parse_xml_report parse_clean_files repr_example [] [] =
      ([], Inl (KeyError ''Violation''))"
    by (simp add: parse_xml_report_def parse_clean_files_def clean_files_doc_def
          clean_file_xml_def tidy_file_xml_def codenarc_package_def
          print_violations_in_packages_def print_violations_in_files_def Let_def)
  from doc count raised show ?thesis by simp
qed

text \<open>
  Claim C8, as the code has it. The printer reads the \<^verbatim>\<open>Violation\<close> entry of every File
  element, so a File element without Violation children is not passed over: after the
  lines of the files before it in the package (each with at least one violation), the
  printer prints nothing for it and raises \<^verbatim>\<open>KeyError('Violation')\<close>, whatever follows.
\<close>

theorem print_violations_in_files_without_violation:
  assumes "list_all2 is_file xs fs"
      and "\<forall>f \<in> set fs. violations f \<noteq> []"
      and "is_file x f"
      and "violations f = []"
  shows "print_violations_in_files repr (Str package_name) (xs @ x # rest) out =
           (out @ concat (map (file_lines package_name) fs), Inl (KeyError ''Violation''))"
proof -
  from assms(3) have name: "subscript x ''@name'' = Inr (Str (file_name f))"
    and ch: "children is_violation x ''Violation'' (violations f)"
    by (simp_all add: is_file_def attribute_def)
  from ch assms(4) have "subscript x ''Violation'' = Inl (KeyError ''Violation'')"
    using children_Nil [of is_violation x "''Violation''"] by simp
  with name show ?thesis
    unfolding print_violations_in_files_def
      print_violations_in_files_loop_append [OF assms(1,2)]
    by simp
qed

theorem print_violations_in_files_without_violation_witness:
  "list_all2 is_file [flagged_file_xml] [flagged_file]
   \<and> violations flagged_file \<noteq> []
   \<and> is_file clean_file_xml clean_file
   \<and> violations clean_file = []
   \<and> print_violations_in_files repr_example (Str ''src'')
        ([flagged_file_xml] @ clean_file_xml # [flagged_file_xml]) [] =
       ([''src/A.groovy:7: EmptyIf: empty'', ''src/A.groovy:9: EmptyElse: empty''],
        Inl (KeyError ''Violation''))"
proof -
  have before: "list_all2 is_file [flagged_file_xml] [flagged_file]"
    by (simp add: is_file_def children_def attribute_def is_violation_def
          flagged_file_xml_def flagged_file_def)
  have some: "violations flagged_file \<noteq> []"
    by (simp add: flagged_file_def)
  then have flagged: "\<forall>f \<in> set [flagged_file]. violations f \<noteq> []"
    by simp
  have clean: "is_file clean_file_xml clean_file"
    by (simp add: is_file_def children_def attribute_def clean_file_xml_def clean_file_def)
  have none: "violations clean_file = []"
    by (simp add: clean_file_def)
  have printed: "concat (map (file_lines ''src'') [flagged_file]) =
      [''src/A.groovy:7: EmptyIf: empty'', ''src/A.groovy:9: EmptyElse: empty'']"
    by (simp add: file_lines_def violation_line_def flagged_file_def)
  from print_violations_in_files_without_violation
    [OF before flagged clean none, of repr_example "''src''" "[flagged_file_xml]" "[]"]
  have "print_violations_in_files repr_example (Str ''src'')
        ([flagged_file_xml] @ clean_file_xml # [flagged_file_xml]) [] =
       ([''src/A.groovy:7: EmptyIf: empty'', ''src/A.groovy:9: EmptyElse: empty''],
        Inl (KeyError ''Violation''))"
    by (simp only: printed append_Nil)
  with before some clean none show ?thesis by simp
qed

text \<open>
  Claim C8 as stated fails: on the report whose only File element has no Violation child
  the printer does not return a count; it raises \<^verbatim>\<open>KeyError('Violation')\<close>.
\<close>

theorem parse_xml_report_clean_file_counterexample:
  "is_report clean_file_doc clean_file_report
   \<and> count_violations clean_file_report = 0
   \<and> parse_xml_report parse_clean_file repr_example [] [] = ([], Inl (KeyError ''Violation''))"
proof -
  have doc: "is_report clean_file_doc clean_file_report"
    by (simp add: is_report_def clean_file_doc_def clean_file_report_def children_def
          attribute_def is_package_def is_file_def clean_file_xml_def clean_file_def)
  have count: "count_violations clean_file_report = 0"
    by (simp add: count_violations_def count_in_files_def clean_file_report_def clean_file_def)
  have raised: "parse_xml_report parse_clean_file repr_example [] [] =
      ([], Inl (KeyError ''Violation''))"
    by (simp add: parse_xml_report_def parse_clean_file_def clean_file_doc_def
          clean_file_xml_def codenarc_package_def print_violations_in_packages_def
          print_violations_in_files_def Let_def)
  from doc count raised show ?thesis by simp
qed

text \<open>
  Claim C9. A Package element whose path is the empty string has its violation lines
  printed with \<^verbatim>\<open>.\<close> as the package path: each line reads
  \<^verbatim>\<open>./<file>:<line>: <ruleName>: <message>\<close>. The package stands anywhere in the list of
  packages; every File element has at least one violation.
\<close>

theorem print_violations_in_packages_empty_path:
  assumes "list_all2 is_package before ps1"
      and "is_package x p"
      and "list_all2 is_package after ps2"
      and "path p = []"
      and "\<forall>q \<in> set (ps1 @ p # ps2). \<forall>f \<in> set (source_files q). violations f \<noteq> []"
  shows "fst (print_violations_in_packages repr (before @ x # after) out) =
           out @ concat (map package_lines ps1) @
           concat (map (\<lambda>f. map (\<lambda>v. ''./'' @ file_name f @ '':'' @ line_number v @ '': '' @
                                      rule_name v @ '': '' @ message v) (violations f))
                       (source_files p)) @
           concat (map package_lines ps2)"
proof -
  have all: "list_all2 is_package (before @ x # after) (ps1 @ p # ps2)"
    using assms(1,2,3) by (simp add: list_all2_appendI)
  have "package_lines p =
          concat (map (\<lambda>f. map (\<lambda>v. ''./'' @ file_name f @ '':'' @ line_number v @ '': '' @
                                      rule_name v @ '': '' @ message v) (violations f))
                       (source_files p))"
    using assms(4)
    by (simp add: package_lines_def shown_path_def file_lines_def [abs_def]
          violation_line_def [abs_def])
  then show ?thesis
    using print_violations_in_packages_lines [OF all assms(5), of repr out] by simp
qed

theorem print_violations_in_packages_empty_path_witness:
  "list_all2 is_package [] []
   \<and> is_package top_package_xml top_package
   \<and> list_all2 is_package [src_package_xml, test_package_xml] [src_package, test_package]
   \<and> path top_package = []
   \<and> map (map violations) (map source_files [top_package, src_package, test_package]) =
       [ [[\<lparr> rule_name = ''UnusedImport'', line_number = ''3'', message = ''unused'' \<rparr>]],
         [[\<lparr> rule_name = ''EmptyIf'', line_number = ''7'', message = ''empty'' \<rparr>,
           \<lparr> rule_name = ''EmptyElse'', line_number = ''9'', message = ''empty'' \<rparr>]],
         [] ]
   \<and> fst (print_violations_in_packages repr_example
            ([] @ top_package_xml # [src_package_xml, test_package_xml]) []) =
       [''./build.groovy:3: UnusedImport: unused'',
        ''src/A.groovy:7: EmptyIf: empty'',
        ''src/A.groovy:9: EmptyElse: empty'']"
proof -
  have none: "list_all2 is_package [] []"
    by simp
  have top: "is_package top_package_xml top_package"
    by (simp add: is_package_def is_file_def is_violation_def children_def attribute_def
          top_package_xml_def top_package_def)
  have others: "list_all2 is_package [src_package_xml, test_package_xml] [src_package, test_package]"
    by (simp add: is_package_def is_file_def is_violation_def children_def attribute_def
          src_package_xml_def src_package_def test_package_xml_def test_package_def
          flagged_file_xml_def flagged_file_def)
  have empty: "path top_package = []"
    by (simp add: top_package_def)
  have found: "map (map violations) (map source_files [top_package, src_package, test_package]) =
       [ [[\<lparr> rule_name = ''UnusedImport'', line_number = ''3'', message = ''unused'' \<rparr>]],
         [[\<lparr> rule_name = ''EmptyIf'', line_number = ''7'', message = ''empty'' \<rparr>,
           \<lparr> rule_name = ''EmptyElse'', line_number = ''9'', message = ''empty'' \<rparr>]],
         [] ]"
    by (simp add: top_package_def src_package_def test_package_def flagged_file_def)
  have listed: "\<forall>q \<in> set ([] @ top_package # [src_package, test_package]).
        \<forall>f \<in> set (source_files q). violations f \<noteq> []"
    by (simp add: top_package_def src_package_def test_package_def flagged_file_def)
  from print_violations_in_packages_empty_path
    [OF none top others empty listed, of repr_example "[]"]
  have "fst (print_violations_in_packages repr_example
            ([] @ top_package_xml # [src_package_xml, test_package_xml]) []) =
       [''./build.groovy:3: UnusedImport: unused'',
        ''src/A.groovy:7: EmptyIf: empty'',
        ''src/A.groovy:9: EmptyElse: empty'']"
    by (simp add: package_lines_def file_lines_def violation_line_def shown_path_def
          top_package_def src_package_def test_package_def flagged_file_def)
  with none top others empty found show ?thesis by simp
qed

section \<open>A bare child and a list of one child are printed alike\<close>

lemma map_of_map_entry:
  "map_of (map (\<lambda>(k', v). (k', h k' v)) d) k = map_option (h k) (map_of d k)"
  by (induction d) auto

lemma subscript_update_entry:
  "subscript (update_entry k g x) k =
     (case subscript x k of Inl e \<Rightarrow> Inl e | Inr v \<Rightarrow> Inr (g v))"
proof (cases x)
  case (Dict d)
  have "map_of (map (\<lambda>(k', v). (k', if k' = k then g v else v)) d) k =
          map_option (\<lambda>v. if k = k then g v else v) (map_of d k)"
    by (rule map_of_map_entry [of "\<lambda>k' v. if k' = k then g v else v"])
  with Dict show ?thesis by (simp split: option.splits)
qed simp_all

lemma subscript_update_entry_other:
  assumes "k' \<noteq> k"
  shows "subscript (update_entry k g x) k' = subscript x k'"
proof (cases x)
  case (Dict d)
  have "map_of (map (\<lambda>(k', v). (k', if k' = k then g v else v)) d) k' =
          map_option (\<lambda>v. if k' = k then g v else v) (map_of d k')"
    by (rule map_of_map_entry [of "\<lambda>k' v. if k' = k then g v else v"])
  with Dict assms show ?thesis by (simp split: option.splits)
qed simp_all

lemma py_in_update_entry: "py_in k' (update_entry k g x) = py_in k' x"
proof (cases x)
  case (Dict d)
  have "map_of (map (\<lambda>(k', v). (k', if k' = k then g v else v)) d) k' =
          map_option (\<lambda>v. if k' = k then g v else v) (map_of d k')"
    by (rule map_of_map_entry [of "\<lambda>k' v. if k' = k then g v else v"])
  with Dict show ?thesis by simp
qed simp_all

lemma safe_list_wrapper_listed_if: "safe_list_wrapper (listed_if b v) = safe_list_wrapper v"
  by (cases v) (simp_all add: listed_if_def)

lemma safe_list_wrapper_each_child:
  "safe_list_wrapper (each_child (update_entry k g) v) = map (update_entry k g) (safe_list_wrapper v)"
  by (cases v) simp_all

lemma files_loop_listed:
  "print_violations_in_files_loop repr package_path (map (list_violations lv) xs) n out =
   print_violations_in_files_loop repr package_path xs n out"
proof (induction xs arbitrary: n out)
  case Nil
  then show ?case by simp
next
  case (Cons x xs)
  have name: "subscript (list_violations lv x) ''@name'' = subscript x ''@name''"
    by (simp add: list_violations_def subscript_update_entry_other)
  have viol: "subscript (list_violations lv x) ''Violation'' =
      (case subscript x ''Violation'' of Inl e \<Rightarrow> Inl e | Inr v \<Rightarrow> Inr (listed_if lv v))"
    by (simp add: list_violations_def subscript_update_entry)
  show ?case
    by (simp add: name viol Cons.IH safe_list_wrapper_listed_if split: sum.splits)
qed

lemma safe_list_wrapper_files:
  "safe_list_wrapper (listed_if lf (each_child (list_violations lv) v)) =
     map (list_violations lv) (safe_list_wrapper v)"
  unfolding safe_list_wrapper_listed_if list_violations_def
  by (rule safe_list_wrapper_each_child)

lemma packages_with_file_listed:
  "packages_with_file (map (list_files lf lv) xs) =
     (case packages_with_file xs of Inl e \<Rightarrow> Inl e | Inr ys \<Rightarrow> Inr (map (list_files lf lv) ys))"
proof (induction xs)
  case Nil
  then show ?case by simp
next
  case (Cons x xs)
  have "py_in ''File'' (list_files lf lv x) = py_in ''File'' x"
    by (simp add: list_files_def py_in_update_entry)
  with Cons show ?case by (simp split: sum.splits)
qed

lemma packages_loop_listed:
  "print_violations_in_packages_loop repr (map (list_files lf lv) xs) n out =
   print_violations_in_packages_loop repr xs n out"
proof (induction xs arbitrary: n out)
  case Nil
  then show ?case by simp
next
  case (Cons x xs)
  have pth: "subscript (list_files lf lv x) ''@path'' = subscript x ''@path''"
    by (simp add: list_files_def subscript_update_entry_other)
  have fl: "subscript (list_files lf lv x) ''File'' =
      (case subscript x ''File'' of
         Inl e \<Rightarrow> Inl e
       | Inr v \<Rightarrow> Inr (listed_if lf (each_child (list_violations lv) v)))"
    by (simp add: list_files_def subscript_update_entry)
  show ?case
    by (simp add: pth fl Cons.IH safe_list_wrapper_files print_violations_in_files_def
          files_loop_listed Let_def split: sum.splits)
qed

lemma packages_listed:
  "print_violations_in_packages repr (map (list_files lf lv) xs) out =
   print_violations_in_packages repr xs out"
  by (simp add: print_violations_in_packages_def packages_with_file_listed packages_loop_listed
        split: sum.splits)

lemma safe_list_wrapper_packages:
  "safe_list_wrapper (listed_if lp (each_child (list_files lf lv) v)) =
     map (list_files lf lv) (safe_list_wrapper v)"
  unfolding safe_list_wrapper_listed_if list_files_def
  by (rule safe_list_wrapper_each_child)

lemma codenarc_listed:
  "subscript (list_packages lp lf lv xml_doc) ''CodeNarc'' =
     (case subscript xml_doc ''CodeNarc'' of
        Inl e \<Rightarrow> Inl e
      | Inr c \<Rightarrow> Inr (update_entry ''Package''
                        (\<lambda>v. listed_if lp (each_child (list_files lf lv) v)) c))"
  by (simp add: list_packages_def subscript_update_entry)

lemma codenarc_package_listed:
  "codenarc_package (list_packages lp lf lv xml_doc) =
     (case codenarc_package xml_doc of
        Inl e \<Rightarrow> Inl e
      | Inr v \<Rightarrow> Inr (listed_if lp (each_child (list_files lf lv) v)))"
  by (simp add: codenarc_package_def codenarc_listed subscript_update_entry split: sum.splits)

text \<open>
  Claim C7. Whatever xmltodict returns for the report, putting the bare Package, File
  and Violation values into one-element lists, at any choice of the three levels,
  changes neither the lines that \<^verbatim>\<open>parse_xml_report\<close> prints nor what it returns or
  raises: a collection of one element is processed as the list of that element is.
\<close>

theorem parse_xml_report_listed:
  "parse_xml_report (\<lambda>t. after_parse (list_packages lp lf lv) (xmltodict_parse t)) repr xml_text out =
   parse_xml_report xmltodict_parse repr xml_text out"
proof (cases "xmltodict_parse xml_text")
  case (Inl e)
  then show ?thesis by (simp add: parse_xml_report_def)
next
  case (Inr xml_doc)
  show ?thesis
  proof (cases "subscript xml_doc ''CodeNarc''")
    case (Inl e)
    with Inr show ?thesis by (simp add: parse_xml_report_def codenarc_listed)
  next
    case c: (Inr c)
    have summary: "subscript (update_entry ''Package''
                        (\<lambda>v. listed_if lp (each_child (list_files lf lv) v)) c) ''PackageSummary'' =
            subscript c ''PackageSummary''"
      by (simp add: subscript_update_entry_other)
    show ?thesis
      using Inr c
      by (simp add: parse_xml_report_def codenarc_listed summary codenarc_package_listed
            safe_list_wrapper_packages packages_listed Let_def
          split: sum.splits cong: sum.case_cong prod.case_cong if_cong)
  qed
qed

theorem parse_xml_report_listed_witness:
  "after_parse (list_packages True True True) (parse_single []) =
     Inr (Dict [(''CodeNarc'', Dict
       [ (''PackageSummary'', Dict [(''@totalFiles'', Str ''1'')]),
         (''Package'', Lst [Dict
           [ (''@path'', Str ''src''),
             (''File'', Lst [Dict
               [ (''@name'', Str ''A.groovy''),
                 (''Violation'', Lst [Dict
                   [ (''@ruleName'', Str ''EmptyIf''),
                     (''@lineNumber'', Str ''7''),
                     (''Message'', Str ''empty'') ]]) ]]) ]]) ])])
   \<and> parse_xml_report (\<lambda>t. after_parse (list_packages True True True) (parse_single t))
        repr_example [] [] =
       ([''src/A.groovy:7: EmptyIf: empty'',
         ''Scanned 1 files'',
         ''Found 1 violation(s):'',
         ''src/A.groovy:7: EmptyIf: empty''], Inr 1)"
proof -
  have lists: "after_parse (list_packages True True True) (parse_single []) =
     Inr (Dict [(''CodeNarc'', Dict
       [ (''PackageSummary'', Dict [(''@totalFiles'', Str ''1'')]),
         (''Package'', Lst [Dict
           [ (''@path'', Str ''src''),
             (''File'', Lst [Dict
               [ (''@name'', Str ''A.groovy''),
                 (''Violation'', Lst [Dict
                   [ (''@ruleName'', Str ''EmptyIf''),
                     (''@lineNumber'', Str ''7''),
                     (''Message'', Str ''empty'') ]]) ]]) ]]) ])])"
    by (simp add: parse_single_def single_doc_def list_packages_def list_files_def
          list_violations_def listed_if_def)
  have bare: "parse_xml_report parse_single repr_example [] [] =
       ([''src/A.groovy:7: EmptyIf: empty'',
         ''Scanned 1 files'',
         ''Found 1 violation(s):'',
         ''src/A.groovy:7: EmptyIf: empty''], Inr 1)"
    by (simp add: parse_xml_report_def parse_single_def single_doc_def codenarc_package_def
          print_violations_in_packages_def print_violations_in_files_def print_violations_def
          Let_def str_int_def str_nat.simps digit_def)
  from parse_xml_report_listed [of True True True parse_single repr_example "[]" "[]"] bare lists
  show ?thesis by simp
qed

section \<open>The invocation\<close>

lemma join_classpath:
  "join '':'' (classpath a) =
     home a @ '':'' @ format_opt (groovy_home a) @ ''/lib/*:'' @
     home a @ ''/CodeNarc-'' @ codenarc_version a @ ''.jar:'' @
     home a @ ''/GMetrics-'' @ gmetrics_version a @ ''.jar:'' @
     home a @ ''/slf4j-'' @ slf4j_version a @ ''/slf4j-api-'' @ slf4j_version a @ ''.jar:'' @
     home a @ ''/slf4j-'' @ slf4j_version a @ ''/slf4j-simple-'' @ slf4j_version a @ ''.jar''"
  by (simp add: classpath_def)

text \<open>
  Claim C10, as the code has it. The process is started with the argument list
  \<^verbatim>\<open>java\<close>, \<^verbatim>\<open>-classpath\<close>, the class path, the main class \<^verbatim>\<open>org.codenarc.CodeNarc\<close>,
  the two fixed flags \<^verbatim>\<open>-rulesetfiles=ruleset.groovy\<close> and \<^verbatim>\<open>-report=xml:<report file>\<close>,
  and then the passthrough options as they are. The class path has six entries joined
  by colons, in this order: the home directory, the wildcard of the runtime's
  \<^verbatim>\<open>lib\<close> directory, and four jars named by the three version strings (CodeNarc,
  GMetrics, slf4j-api and slf4j-simple, the last two with the same version).
  \<^verbatim>\<open>run_codenarc\<close> hands exactly this list to the process.
\<close>

theorem codenarc_call_layout:
  "codenarc_call a report_file =
     [ ''java'',
       ''-classpath'',
       home a @ '':'' @ format_opt (groovy_home a) @ ''/lib/*:'' @
       home a @ ''/CodeNarc-'' @ codenarc_version a @ ''.jar:'' @
       home a @ ''/GMetrics-'' @ gmetrics_version a @ ''.jar:'' @
       home a @ ''/slf4j-'' @ slf4j_version a @ ''/slf4j-api-'' @ slf4j_version a @ ''.jar:'' @
       home a @ ''/slf4j-'' @ slf4j_version a @ ''/slf4j-simple-'' @ slf4j_version a @ ''.jar'',
       ''org.codenarc.CodeNarc'',
       ''-rulesetfiles=ruleset.groovy'',
       ''-report=xml:'' @ report_file ] @ codenarc_options a
   \<and> length (classpath a) = 6
   \<and> run_codenarc subprocess_run read_text a report_file w =
       run_codenarc (\<lambda>call. subprocess_run (codenarc_call a report_file)) read_text a report_file w"
proof -
  have "length (classpath a) = 6"
    by (simp add: classpath_def)
  moreover have "run_codenarc subprocess_run read_text a report_file w =
       run_codenarc (\<lambda>call. subprocess_run (codenarc_call a report_file)) read_text a report_file w"
    by (simp add: run_codenarc_def)
  ultimately show ?thesis
    unfolding codenarc_call_def join_classpath by simp
qed

theorem codenarc_call_layout_witness:
  "codenarc_call example_args DEFAULT_REPORT_FILE =
     [ ''java'',
       ''-classpath'',
       ''/opt/groovylint:/opt/groovy/lib/*:/opt/groovylint/CodeNarc-1.5.jar:/opt/groovylint/GMetrics-1.0.jar:/opt/groovylint/slf4j-1.7.29/slf4j-api-1.7.29.jar:/opt/groovylint/slf4j-1.7.29/slf4j-simple-1.7.29.jar'',
       ''org.codenarc.CodeNarc'',
       ''-rulesetfiles=ruleset.groovy'',
       ''-report=xml:codenarc-report.xml'',
       ''-includes=**/*.groovy'' ]"
  using codenarc_call_layout [of example_args DEFAULT_REPORT_FILE run_ok read_ascii empty_world]
  by (simp add: example_args_def DEFAULT_REPORT_FILE_def)

text \<open>
  Claim C10 as stated fails: after the home directory and the runtime wildcard the class
  path has four jars, not three.
\<close>

theorem classpath_four_jars_counterexample:
  "drop 2 (classpath example_args) =
     [ ''/opt/groovylint/CodeNarc-1.5.jar'',
       ''/opt/groovylint/GMetrics-1.0.jar'',
       ''/opt/groovylint/slf4j-1.7.29/slf4j-api-1.7.29.jar'',
       ''/opt/groovylint/slf4j-1.7.29/slf4j-simple-1.7.29.jar'' ]
   \<and> length (drop 2 (classpath example_args)) \<noteq> 3"
  by (simp add: classpath_def example_args_def)

end
